theory Spec2Isabelle
  imports
    Complex_Main
    "HOL-Library.Char_ord"
    "HOL-Library.List_Lexorder"
    "HOL-Library.Product_Lexorder"
begin

section \<open>Values, rows and frames\<close>

text \<open>
  The repository is a pandas pipeline: \<open>DataProcessor\<close> (data_processor.py) derives the
  difference columns, \<open>AnomalyDetector\<close> (anomaly_detector.py) scores the breaks,
  \<open>HybridAnomalyClassifier\<close> (anomaly_classifier.py) labels every row,
  \<open>AIIInsightsGenerator\<close> (ai_insights.py) writes comments and
  \<open>ReconciliationWorkflow.execute\<close> (reconciliation_workflow.py) runs them in sequence.

  Conventions of the embedding.
  \<^item> A float64 cell is a \<open>real\<close>; a cell that may be null is a \<open>float\<close>, with
    \<open>None\<close> for NaN (pandas' null). Arithmetic is exact: rounding error and infinities are
    not modelled. The numeric columns are therefore the exact values that the float64 cells
    approximate, and a comparison of computed values speaks for the program only away from
    the exact boundary of its threshold, where one rounding error decides the outcome.
  \<^item> A data frame is its list of column labels and its list of rows. A row carries one
    typed field per column the program knows; the field of a column that is not among the
    labels holds no information, and every read of a derived column first looks the label up
    (pandas raises \<open>KeyError\<close> otherwise). The nine required columns are validated by
    \<open>load_data\<close> before any other method runs, so inside \<open>DataProcessor\<close> they are
    read directly.
  \<^item> \<open>idx\<close> is the row's index label. \<open>AsofDate\<close> is the timestamp as a day number.
  \<^item> Every \<open>raise\<close> is an \<open>Inl\<close> of the result.
\<close>

datatype error =
    ValueError string
  | KeyError string
  | NameError string
  | NotFittedError string
  | ZeroDivisionError
  | LibraryError string

type_synonym float = "real option"

definition and_then :: "error + 'a \<Rightarrow> ('a \<Rightarrow> error + 'b) \<Rightarrow> error + 'b" where
  "and_then m f = (case m of Inl e \<Rightarrow> Inl e | Inr x \<Rightarrow> f x)"

record row =
  idx :: nat
  AsofDate :: int
  Company :: string
  Account :: string
  AU :: string
  Currency :: string
  Primary_Account :: string
  Secondary_Account :: string
  GL_Balance :: real
  IHUB_Balance :: real
  CompositeKey :: string
  Balance_Difference :: real
  Abs_Difference :: real
  Match_Status :: string
  Pct_Difference :: float
  Previous_Balance_Difference :: float
  Difference_Change :: float
  Is_Anomaly :: int
  Is_Anomaly_y :: "int option"
  Anomaly_Score :: real
  Break_Classification :: string
  Comments :: string

record frame =
  columns :: "string list"
  rows :: "row list"

text \<open>\<open>df[c] = ...\<close> appends the label \<open>c\<close> when the frame does not have it yet.\<close>

definition add_column :: "string \<Rightarrow> string list \<Rightarrow> string list" where
  "add_column c cs = (if c \<in> set cs then cs else cs @ [c])"

text \<open>NaN propagates through a subtraction; \<open>fillna(0)\<close> replaces it.\<close>

definition fsub :: "real \<Rightarrow> float \<Rightarrow> float" where
  "fsub x p = (case p of None \<Rightarrow> None | Some y \<Rightarrow> Some (x - y))"

definition fillna0 :: "float \<Rightarrow> real" where
  "fillna0 p = (case p of None \<Rightarrow> 0 | Some y \<Rightarrow> y)"

text \<open>\<open>Series.round(2)\<close>: numpy scales by 100, rounds half to even, and scales back.\<close>

definition rint :: "real \<Rightarrow> int" where
  "rint x =
     (let f = \<lfloor>x\<rfloor>; r = x - of_int f
      in if r < 1 / 2 then f
         else if 1 / 2 < r then f + 1
         else if even f then f else f + 1)"

definition round2 :: "real \<Rightarrow> real" where
  "round2 x = of_int (rint (x * 100)) / 100"

section \<open>data_processor.py\<close>

record DataProcessor =
  file_path :: string
  df :: "frame option"

definition required_columns :: "string list" where
  "required_columns =
     [''AsofDate'', ''Company'', ''Account'', ''AU'', ''Currency'',
      ''Primary Account'', ''Secondary Account'', ''GL Balance'', ''IHUB Balance'']"

definition composite_key :: "row \<Rightarrow> string" where
  "composite_key r =
     Company r @ ''_'' @ Account r @ ''_'' @ AU r @ ''_'' @ Currency r @ ''_'' @ Primary_Account r"

text \<open>
  \<open>sort_values(['CompositeKey', 'AsofDate'])\<close> is a stable lexicographic sort, as
  \<open>sort_key\<close> on the pair is; strings compare by code point.
\<close>

definition preprocess_data :: "DataProcessor \<Rightarrow> error + DataProcessor" where
  "preprocess_data self =
     (case df self of
        None \<Rightarrow> Inl (ValueError ''Data not cleaned. Call clean_data() first.'')
      | Some d \<Rightarrow>
          let r1 = map (\<lambda>r. r\<lparr>GL_Balance := round2 (GL_Balance r)\<rparr>) (rows d);
              r2 = map (\<lambda>r. r\<lparr>IHUB_Balance := round2 (IHUB_Balance r)\<rparr>) r1;
              r3 = map (\<lambda>r. r\<lparr>CompositeKey := composite_key r\<rparr>) r2;
              r4 = sort_key (\<lambda>r. (CompositeKey r, AsofDate r)) r3
          in Inr (self\<lparr>df := Some \<lparr>columns = add_column ''CompositeKey'' (columns d),
                                     rows = r4\<rparr>\<rparr>))"

text \<open>
  \<open>np.where\<close> selects per row between two arrays that are both computed in full; the
  quotient at a zero divisor is a non-finite float that raises nothing and is then
  discarded for \<open>np.nan\<close>.
\<close>

definition pct_difference :: "row \<Rightarrow> float" where
  "pct_difference r =
     (if IHUB_Balance r \<noteq> 0 then Some (Balance_Difference r / IHUB_Balance r * 100) else None)"

definition calculate_differences :: "DataProcessor \<Rightarrow> error + DataProcessor" where
  "calculate_differences self =
     (case df self of
        None \<Rightarrow> Inl (ValueError ''Data not preprocessed. Call preprocess_data() first.'')
      | Some d \<Rightarrow>
          let r1 = map (\<lambda>r. r\<lparr>Balance_Difference := GL_Balance r - IHUB_Balance r\<rparr>) (rows d);
              r2 = map (\<lambda>r. r\<lparr>Abs_Difference := \<bar>Balance_Difference r\<bar>\<rparr>) r1;
              r3 = map (\<lambda>r. r\<lparr>Match_Status :=
                                 (if Abs_Difference r < 1 then ''Match'' else ''Break'')\<rparr>) r2;
              r4 = map (\<lambda>r. r\<lparr>Pct_Difference := pct_difference r\<rparr>) r3
          in Inr (self\<lparr>df := Some \<lparr>columns =
                                       add_column ''Pct Difference''
                                         (add_column ''Match Status''
                                           (add_column ''Abs Difference''
                                             (add_column ''Balance Difference'' (columns d)))),
                                     rows = r4\<rparr>\<rparr>))"

text \<open>
  \<open>groupby('CompositeKey')['Balance Difference'].shift(1)\<close>: each row receives the
  value of the closest earlier row of the frame with the same key, NaN when there is none.
  The map remembers the last value seen for every key.
\<close>

primrec groupby_shift :: "(string \<rightharpoonup> real) \<Rightarrow> row list \<Rightarrow> float list" where
  "groupby_shift last_seen [] = []"
| "groupby_shift last_seen (r # rs) =
     last_seen (CompositeKey r)
       # groupby_shift (last_seen(CompositeKey r \<mapsto> Balance_Difference r)) rs"

definition add_previous_differences :: "DataProcessor \<Rightarrow> error + DataProcessor" where
  "add_previous_differences self =
     (case df self of
        None \<Rightarrow> Inl (ValueError ''Differences not calculated. Call calculate_differences() first.'')
      | Some d \<Rightarrow>
          if ''CompositeKey'' \<notin> set (columns d) then Inl (KeyError ''CompositeKey'')
          else if ''Balance Difference'' \<notin> set (columns d) then Inl (KeyError ''Balance Difference'')
          else
            let r1 = map2 (\<lambda>r p. r\<lparr>Previous_Balance_Difference := p\<rparr>)
                       (rows d) (groupby_shift Map.empty (rows d));
                r2 = map (\<lambda>r. r\<lparr>Difference_Change :=
                                   fsub (Balance_Difference r) (Previous_Balance_Difference r)\<rparr>) r1
            in Inr (self\<lparr>df := Some \<lparr>columns =
                                         add_column ''Difference Change''
                                           (add_column ''Previous Balance Difference'' (columns d)),
                                       rows = r2\<rparr>\<rparr>))"

definition column_order :: "string list" where
  "column_order =
     required_columns @
     [''Balance Difference'', ''Abs Difference'', ''Pct Difference'',
      ''Previous Balance Difference'', ''Difference Change'', ''Match Status'']"

definition get_processed_data :: "DataProcessor \<Rightarrow> error + frame" where
  "get_processed_data self =
     (case df self of
        None \<Rightarrow> Inl (ValueError ''Processing not complete. Run all steps first.'')
      | Some d \<Rightarrow>
          let result_columns = filter (\<lambda>c. c \<noteq> ''CompositeKey'') (columns d)
          in Inr \<lparr>columns = filter (\<lambda>c. c \<in> set result_columns) column_order,
                  rows = rows d\<rparr>)"

text \<open>
  \<open>load_data\<close> reads a spreadsheet and \<open>clean_data\<close> parses its text; both are
  parameters here. They leave in \<open>df\<close> a frame with the required columns, a date and
  two non-null balances in every row.
\<close>

definition full_pipeline ::
  "(DataProcessor \<Rightarrow> error + DataProcessor) \<Rightarrow> (DataProcessor \<Rightarrow> error + DataProcessor)
     \<Rightarrow> DataProcessor \<Rightarrow> error + frame" where
  "full_pipeline load_data clean_data self =
     and_then (and_then (and_then (and_then (and_then (load_data self)
       clean_data) preprocess_data) calculate_differences) add_previous_differences)
       get_processed_data"

section \<open>anomaly_detector.py\<close>

text \<open>
  scikit-learn is outside the repository; its estimators are parameters. An estimator is
  either unfitted (\<open>None\<close>) or holds what \<open>fit\<close> computed; \<open>transform\<close> and
  \<open>score_samples\<close> on an unfitted estimator raise \<open>NotFittedError\<close>. A feature
  vector is the pair (Balance Difference, Previous Balance Difference).
\<close>

record ('sc, 'fo) sklearn =
  scaler_fit :: "(real \<times> real) list \<Rightarrow> 'sc"
  scaler_transform :: "'sc \<Rightarrow> (real \<times> real) list \<Rightarrow> (real \<times> real) list"
  forest_fit :: "real \<Rightarrow> (real \<times> real) list \<Rightarrow> 'fo"
  forest_predict :: "'fo \<Rightarrow> (real \<times> real) list \<Rightarrow> int list"
  forest_score_samples :: "'fo \<Rightarrow> (real \<times> real) list \<Rightarrow> real list"

record ('sc, 'fo) AnomalyDetector =
  contamination :: real
  scaler :: "'sc option"
  model :: "'fo option"

definition AnomalyDetector_init :: "('sc, 'fo) AnomalyDetector" where
  "AnomalyDetector_init = \<lparr>contamination = 0.05, scaler = None, model = None\<rparr>"

definition features_of :: "row list \<Rightarrow> (real \<times> real) list" where
  "features_of rs = map (\<lambda>r. (Balance_Difference r, fillna0 (Previous_Balance_Difference r))) rs"

text \<open>
  \<open>df.merge(right, left_index=True, right_index=True, how='left')\<close>: every row of the
  left frame, in order, once per row of the right frame with the same index label, and once
  with NaN when there is none.
\<close>

definition merge_left :: "row list \<Rightarrow> (nat \<times> int option) list \<Rightarrow> (row \<times> int option) list" where
  "merge_left left right =
     concat (map (\<lambda>r. case map snd (filter (\<lambda>iv. fst iv = idx r) right) of
                          [] \<Rightarrow> [(r, None)]
                        | vs \<Rightarrow> map (\<lambda>v. (r, v)) vs) left)"

text \<open>\<open>.map({1: 0, -1: 1})\<close> sends every other value to NaN.\<close>

definition to_binary :: "int \<Rightarrow> int option" where
  "to_binary p = (if p = 1 then Some 0 else if p = - 1 then Some 1 else None)"

definition fillna0_int :: "int option \<Rightarrow> int" where
  "fillna0_int v = (case v of None \<Rightarrow> 0 | Some x \<Rightarrow> x)"

definition detect_anomalies ::
  "('sc, 'fo) sklearn \<Rightarrow> ('sc, 'fo) AnomalyDetector \<Rightarrow> frame
     \<Rightarrow> error + (('sc, 'fo) AnomalyDetector \<times> frame)" where
  "detect_anomalies sk self frm =
     (if ''Match Status'' \<notin> set (columns frm) then Inl (KeyError ''Match Status'')
      else
        let breaks_df = filter (\<lambda>r. Match_Status r = ''Break'') (rows frm)
        in if breaks_df = []
           then Inr (self, \<lparr>columns = add_column ''Is Anomaly'' (columns frm),
                           rows = map (\<lambda>r. r\<lparr>Is_Anomaly := 0\<rparr>) (rows frm)\<rparr>)
           else if ''Balance Difference'' \<notin> set (columns frm)
             then Inl (KeyError ''Balance Difference'')
           else if ''Previous Balance Difference'' \<notin> set (columns frm)
             then Inl (KeyError ''Previous Balance Difference'')
           else
             let features = features_of breaks_df;
                 sc = scaler_fit sk features;
                 scaled_features = scaler_transform sk sc features;
                 fo = forest_fit sk (contamination self) scaled_features;
                 preds = forest_predict sk fo scaled_features;
                 self' = self\<lparr>scaler := Some sc, model := Some fo\<rparr>
             in if length preds \<noteq> length breaks_df
                then Inl (ValueError ''Length of values does not match length of index'')
                else
                  let merged = merge_left (rows frm)
                                 (zip (map idx breaks_df) (map to_binary preds))
                  in if ''Is Anomaly'' \<in> set (columns frm)
                     then if ''Is Anomaly_y'' \<in> set (columns frm)
                          then Inl (LibraryError ''MergeError'')
                          else Inr (self', \<lparr>columns = columns frm @ [''Is Anomaly_y''],
                                            rows = map (\<lambda>rv. (fst rv)\<lparr>Is_Anomaly_y := snd rv\<rparr>)
                                                     merged\<rparr>)
                     else Inr (self', \<lparr>columns = columns frm @ [''Is Anomaly''],
                                       rows = map (\<lambda>rv. (fst rv)\<lparr>Is_Anomaly :=
                                                            fillna0_int (snd rv)\<rparr>) merged\<rparr>))"

definition calculate_anomaly_scores ::
  "('sc, 'fo) sklearn \<Rightarrow> ('sc, 'fo) AnomalyDetector \<Rightarrow> frame \<Rightarrow> error + frame" where
  "calculate_anomaly_scores sk self frm =
     (if ''Balance Difference'' \<notin> set (columns frm) then Inl (KeyError ''Balance Difference'')
      else if ''Previous Balance Difference'' \<notin> set (columns frm)
        then Inl (KeyError ''Previous Balance Difference'')
      else
        let features = features_of (rows frm)
        in if length features = 0
           then Inr \<lparr>columns = add_column ''Anomaly Score'' (columns frm),
                     rows = map (\<lambda>r. r\<lparr>Anomaly_Score := 0\<rparr>) (rows frm)\<rparr>
           else
             (case scaler self of
                None \<Rightarrow> Inl (NotFittedError ''StandardScaler'')
              | Some sc \<Rightarrow>
                  let scaled_features = scaler_transform sk sc features
                  in (case model self of
                        None \<Rightarrow> Inl (NotFittedError ''IsolationForest'')
                      | Some fo \<Rightarrow>
                          let scores = forest_score_samples sk fo scaled_features
                          in if length scores \<noteq> length (rows frm)
                             then Inl (ValueError
                                         ''Length of values does not match length of index'')
                             else Inr \<lparr>columns = add_column ''Anomaly Score'' (columns frm),
                                       rows = map2 (\<lambda>r s. r\<lparr>Anomaly_Score := - s\<rparr>)
                                                (rows frm) scores\<rparr>)))"

section \<open>anomaly_classifier.py\<close>

record thresholds =
  significant_variance :: real
  small_difference :: real
  large_difference :: real

record HybridAnomalyClassifier =
  thresholds :: thresholds

definition HybridAnomalyClassifier_init :: HybridAnomalyClassifier where
  "HybridAnomalyClassifier_init =
     \<lparr>thresholds = \<lparr>significant_variance = 0.5, small_difference = 1.0,
                     large_difference = 10000.0\<rparr>\<rparr>"

text \<open>
  The row handed to \<open>classify_break\<close> is a Series indexed by the frame's column labels:
  \<open>row['X']\<close> raises \<open>KeyError\<close> when \<open>X\<close> is not a label, and
  \<open>row.get('X', 0)\<close> yields \<open>0\<close> then. \<open>np.sign\<close> is \<open>sgn\<close>.
\<close>

definition classify_break :: "HybridAnomalyClassifier \<Rightarrow> string list \<Rightarrow> row \<Rightarrow> error + string" where
  "classify_break self cols row =
     (if ''Match Status'' \<notin> set cols then Inl (KeyError ''Match Status'')
      else if Match_Status row = ''Match'' then Inr ''Within Tolerance''
      else if ''Balance Difference'' \<notin> set cols then Inl (KeyError ''Balance Difference'')
      else
        let current_diff = Balance_Difference row;
            abs_diff = \<bar>current_diff\<bar>;
            prev_diff = (if ''Previous Balance Difference'' \<in> set cols
                         then Previous_Balance_Difference row else Some 0);
            abs_prev_diff = (case prev_diff of Some p \<Rightarrow> \<bar>p\<bar> | None \<Rightarrow> 0)
        in if abs_diff < small_difference (thresholds self) then Inr ''Small Difference''
           else
             (case prev_diff of
                None \<Rightarrow> Inr ''New Difference''
              | Some p \<Rightarrow>
                  if abs_diff > large_difference (thresholds self) then Inr ''Large Difference''
                  else if \<bar>current_diff - p\<bar> > significant_variance (thresholds self) * abs_prev_diff
                    then Inr ''Significant Variance''
                  else if sgn current_diff \<noteq> sgn p then Inr ''Direction Change''
                  else if \<bar>current_diff - p\<bar> < 0.1 * abs_prev_diff
                    then Inr ''Consistent Difference''
                  else Inr ''Moderate Difference''))"

text \<open>\<open>df.apply(f, axis=1)\<close> calls \<open>f\<close> on the rows in order; the first raise ends it.\<close>

primrec apply_rows :: "(row \<Rightarrow> error + 'a) \<Rightarrow> row list \<Rightarrow> error + 'a list" where
  "apply_rows f [] = Inr []"
| "apply_rows f (r # rs) =
     (case f r of
        Inl e \<Rightarrow> Inl e
      | Inr v \<Rightarrow> (case apply_rows f rs of Inl e \<Rightarrow> Inl e | Inr vs \<Rightarrow> Inr (v # vs)))"

definition classify_all :: "HybridAnomalyClassifier \<Rightarrow> frame \<Rightarrow> error + frame" where
  "classify_all self frm =
     (if ''Match Status'' \<notin> set (columns frm)
      then Inl (ValueError ''Match Status column not found. Run reconciliation first.'')
      else
        (case apply_rows (classify_break self (columns frm)) (rows frm) of
           Inl e \<Rightarrow> Inl e
         | Inr labels \<Rightarrow>
             Inr \<lparr>columns = add_column ''Break Classification'' (columns frm),
                  rows = map2 (\<lambda>r l. r\<lparr>Break_Classification := l\<rparr>) (rows frm) labels\<rparr>))"

section \<open>ai_insights.py\<close>

text \<open>
  The language model is outside the repository: \<open>hub\<close> builds it from the model name and
  \<open>call\<close> runs it on a prompt; either may raise. The prompt templates format dates and
  floats into text and are parameters too.
\<close>

record 'llm AIIInsightsGenerator =
  ai_hf_token :: "string option"
  model_name :: string
  llm_chain :: "'llm option"

text \<open>
  The names the module binds at top level (its five imports and its class). A name that is
  neither among them nor a builtin raises \<open>NameError\<close> when it is evaluated.
\<close>

definition ai_insights_globals :: "string list" where
  "ai_insights_globals =
     [''HuggingFaceHub'', ''LLMChain'', ''PromptTemplate'', ''pd'', ''os'',
      ''AIIInsightsGenerator'']"

definition global_name :: "string \<Rightarrow> error + string" where
  "global_name n = (if n \<in> set ai_insights_globals then Inr n else Inl (NameError n))"

definition initialize_llm_chain ::
  "(string \<Rightarrow> error + 'llm) \<Rightarrow> string option \<Rightarrow> string \<Rightarrow> error + 'llm option" where
  "initialize_llm_chain hub token name =
     (case token of
        None \<Rightarrow> Inr None
      | Some t \<Rightarrow> if t = [] then Inr None else and_then (hub name) (\<lambda>llm. Inr (Some llm)))"

definition AIIInsightsGenerator_init ::
  "(string \<Rightarrow> error + 'llm) \<Rightarrow> string option \<Rightarrow> error + 'llm AIIInsightsGenerator" where
  "AIIInsightsGenerator_init hub token =
     and_then (initialize_llm_chain hub token ''google/flan-t5-large'')
       (\<lambda>chain. Inr \<lparr>ai_hf_token = token, model_name = ''google/flan-t5-large'',
                      llm_chain = chain\<rparr>)"

definition generate_with_llm ::
  "('llm \<Rightarrow> string \<Rightarrow> error + string) \<Rightarrow> 'llm AIIInsightsGenerator \<Rightarrow> string \<Rightarrow> string" where
  "generate_with_llm call self prompt_text =
     (case llm_chain self of
        None \<Rightarrow> ''Analysis unavailable (no HuggingFace token provided)''
      | Some llm \<Rightarrow>
          (case call llm prompt_text of
             Inl e \<Rightarrow> ''Analysis generation failed''
           | Inr text \<Rightarrow> text))"

text \<open>
  Without a chain the method evaluates \<open>np.where(...)\<close>; the callee \<open>np\<close> is looked up
  before any argument is evaluated. With a chain, the comments are written to a copy of the
  break rows and \<open>df.update\<close> copies back only the columns the frame already has, matching
  rows by index label (it refuses a copy with repeated labels).
\<close>

definition generate_break_comments ::
  "('llm \<Rightarrow> string \<Rightarrow> error + string) \<Rightarrow> (row \<Rightarrow> string) \<Rightarrow> 'llm AIIInsightsGenerator
     \<Rightarrow> frame \<Rightarrow> error + frame" where
  "generate_break_comments call break_prompt self frm =
     (case llm_chain self of
        None \<Rightarrow>
          and_then (global_name ''np'')
            (\<lambda>np. if ''Match Status'' \<notin> set (columns frm) then Inl (KeyError ''Match Status'')
                   else Inr \<lparr>columns = add_column ''Comments'' (columns frm),
                             rows = map (\<lambda>r. r\<lparr>Comments :=
                                      (if Match_Status r = ''Break''
                                       then ''Discrepancy detected - requires investigation''
                                       else ''Difference within acceptable tolerance'')\<rparr>)
                                      (rows frm)\<rparr>)
      | Some llm \<Rightarrow>
          if ''Match Status'' \<notin> set (columns frm) then Inl (KeyError ''Match Status'')
          else
            let breaks_df = filter (\<lambda>r. Match_Status r = ''Break'') (rows frm)
            in if breaks_df = [] then Inr frm
               else if ''Balance Difference'' \<notin> set (columns frm)
                 then Inl (KeyError ''Balance Difference'')
               else
                 let comments = map (\<lambda>r. generate_with_llm call self (break_prompt r)) breaks_df;
                     updated = zip (map idx breaks_df) comments
                 in if \<not> distinct (map idx breaks_df)
                    then Inl (ValueError ''cannot reindex on an axis with duplicate labels'')
                    else if ''Comments'' \<in> set (columns frm)
                      then Inr (frm\<lparr>rows := map (\<lambda>r. case map_of updated (idx r) of
                                                         None \<Rightarrow> r
                                                       | Some c \<Rightarrow> r\<lparr>Comments := c\<rparr>) (rows frm)\<rparr>)
                      else Inr frm)"

definition generate_executive_summary ::
  "('llm \<Rightarrow> string \<Rightarrow> error + string) \<Rightarrow> (nat \<Rightarrow> nat \<Rightarrow> nat \<Rightarrow> int \<Rightarrow> string)
     \<Rightarrow> 'llm AIIInsightsGenerator \<Rightarrow> frame \<Rightarrow> error + string" where
  "generate_executive_summary call summary_prompt self frm =
     (case llm_chain self of
        None \<Rightarrow> Inr ''AI summary unavailable (no HuggingFace token provided)''
      | Some llm \<Rightarrow>
          if ''Match Status'' \<notin> set (columns frm) then Inl (KeyError ''Match Status'')
          else
            let total_records = length (rows frm);
                matches = length (filter (\<lambda>r. Match_Status r = ''Match'') (rows frm));
                breaks = total_records - matches
            in if ''Is Anomaly'' \<notin> set (columns frm) then Inl (KeyError ''Is Anomaly'')
               else
                 let anomalies = sum_list (map Is_Anomaly (rows frm))
                 in if total_records = 0 then Inl ZeroDivisionError
                    else Inr (generate_with_llm call self
                                (summary_prompt total_records matches breaks anomalies)))"

section \<open>reconciliation_workflow.py\<close>

record ReconciliationWorkflow =
  input_path :: string
  output_path :: string
  hf_token :: "string option"
  results :: "frame option"

text \<open>Everything \<open>execute\<close> reaches outside the repository.\<close>

record ('sc, 'fo, 'llm) collaborators =
  load_data :: "DataProcessor \<Rightarrow> error + DataProcessor"
  clean_data :: "DataProcessor \<Rightarrow> error + DataProcessor"
  sklearn_lib :: "('sc, 'fo) sklearn"
  hub :: "string \<Rightarrow> error + 'llm"
  call :: "'llm \<Rightarrow> string \<Rightarrow> error + string"
  break_prompt :: "row \<Rightarrow> string"
  summary_prompt :: "nat \<Rightarrow> nat \<Rightarrow> nat \<Rightarrow> int \<Rightarrow> string"
  write_files :: "string \<Rightarrow> frame \<Rightarrow> string \<Rightarrow> error + unit"

definition save_results ::
  "('sc, 'fo, 'llm) collaborators \<Rightarrow> ReconciliationWorkflow \<Rightarrow> frame \<Rightarrow> string
     \<Rightarrow> error + ReconciliationWorkflow" where
  "save_results ext self frm summary =
     and_then (write_files ext (output_path self) frm summary)
       (\<lambda>u. Inr (self\<lparr>results := Some frm\<rparr>))"

text \<open>
  The body of the \<open>try\<close> block of \<open>execute\<close>; \<open>execute\<close> returns \<open>True\<close> when it
  ends and \<open>False\<close> when anything in it raised, and then \<open>self\<close> is as it was.
\<close>

definition execute_steps ::
  "('sc, 'fo, 'llm) collaborators \<Rightarrow> ReconciliationWorkflow \<Rightarrow> error + ReconciliationWorkflow" where
  "execute_steps ext self =
     and_then (full_pipeline (load_data ext) (clean_data ext) \<lparr>file_path = input_path self, df = None\<rparr>)
       (\<lambda>d1. and_then (detect_anomalies (sklearn_lib ext) AnomalyDetector_init d1)
         (\<lambda>(detector, d2). and_then (calculate_anomaly_scores (sklearn_lib ext) detector d2)
           (\<lambda>d3. and_then (classify_all HybridAnomalyClassifier_init d3)
             (\<lambda>d4. and_then (AIIInsightsGenerator_init (hub ext) (hf_token self))
               (\<lambda>ai. and_then (generate_break_comments (call ext) (break_prompt ext) ai d4)
                 (\<lambda>d5. and_then (generate_executive_summary (call ext) (summary_prompt ext) ai d5)
                   (\<lambda>summary. save_results ext self d5 summary)))))))"

definition execute ::
  "('sc, 'fo, 'llm) collaborators \<Rightarrow> ReconciliationWorkflow \<Rightarrow> bool \<times> ReconciliationWorkflow" where
  "execute ext self =
     (case execute_steps ext self of
        Inl e \<Rightarrow> (False, self)
      | Inr self' \<Rightarrow> (True, self'))"

section \<open>Row-level views of the stages\<close>

text \<open>
  What each stage of \<open>DataProcessor\<close> does to one row, and the three stages in sequence.
  The proofs go through these.
\<close>

definition prep_row :: "row \<Rightarrow> row" where
  "prep_row r = r\<lparr>GL_Balance := round2 (GL_Balance r), IHUB_Balance := round2 (IHUB_Balance r),
                  CompositeKey := composite_key r\<rparr>"

definition diff_row :: "row \<Rightarrow> row" where
  "diff_row r =
     r\<lparr>Balance_Difference := GL_Balance r - IHUB_Balance r,
       Abs_Difference := \<bar>GL_Balance r - IHUB_Balance r\<bar>,
       Match_Status := (if \<bar>GL_Balance r - IHUB_Balance r\<bar> < 1 then ''Match'' else ''Break''),
       Pct_Difference := (if IHUB_Balance r \<noteq> 0
                          then Some ((GL_Balance r - IHUB_Balance r) / IHUB_Balance r * 100)
                          else None)\<rparr>"

definition link_row :: "float \<Rightarrow> row \<Rightarrow> row" where
  "link_row p r = r\<lparr>Previous_Balance_Difference := p,
                    Difference_Change := fsub (Balance_Difference r) p\<rparr>"

primrec link_rows :: "(string \<rightharpoonup> real) \<Rightarrow> row list \<Rightarrow> row list" where
  "link_rows m [] = []"
| "link_rows m (r # rs) =
     link_row (m (CompositeKey r)) r # link_rows (m(CompositeKey r \<mapsto> Balance_Difference r)) rs"

primrec link_group :: "float \<Rightarrow> row list \<Rightarrow> row list" where
  "link_group p [] = []"
| "link_group p (r # rs) = link_row p r # link_group (Some (Balance_Difference r)) rs"

definition key_date :: "row \<Rightarrow> string \<times> int" where
  "key_date r = (CompositeKey r, AsofDate r)"

definition two_step_rows :: "row list \<Rightarrow> row list" where
  "two_step_rows rs = map diff_row (sort_key key_date (map prep_row rs))"

definition two_step_columns :: "string list \<Rightarrow> string list" where
  "two_step_columns cs =
     add_column ''Pct Difference'' (add_column ''Match Status''
       (add_column ''Abs Difference'' (add_column ''Balance Difference''
         (add_column ''CompositeKey'' cs))))"

definition engine_rows :: "row list \<Rightarrow> row list" where
  "engine_rows rs = link_rows Map.empty (map diff_row (sort_key key_date (map prep_row rs)))"

definition engine_columns :: "string list \<Rightarrow> string list" where
  "engine_columns cs =
     add_column ''Difference Change'' (add_column ''Previous Balance Difference''
       (two_step_columns cs))"

text \<open>
  The three methods of the Difference Engine in the order \<open>full_pipeline\<close> calls them.
\<close>

definition difference_engine :: "DataProcessor \<Rightarrow> error + DataProcessor" where
  "difference_engine self =
     and_then (and_then (preprocess_data self) calculate_differences) add_previous_differences"

text \<open>The label \<open>classify_break\<close> returns for a row, where it returns one.\<close>

definition label_of :: "string list \<Rightarrow> row \<Rightarrow> string" where
  "label_of cols r = projr (classify_break HybridAnomalyClassifier_init cols r)"

text \<open>
  The break rows of a frame, the labels the fitted forest predicts for them, and the flag
  the merge on the index label then leaves on a row.
\<close>

definition break_rows :: "frame \<Rightarrow> row list" where
  "break_rows frm = filter (\<lambda>r. Match_Status r = ''Break'') (rows frm)"

definition fitted_scaler :: "('sc, 'fo) sklearn \<Rightarrow> frame \<Rightarrow> 'sc" where
  "fitted_scaler sk frm = scaler_fit sk (features_of (break_rows frm))"

definition scaled_breaks :: "('sc, 'fo) sklearn \<Rightarrow> frame \<Rightarrow> (real \<times> real) list" where
  "scaled_breaks sk frm =
     scaler_transform sk (fitted_scaler sk frm) (features_of (break_rows frm))"

definition fitted_forest ::
  "('sc, 'fo) sklearn \<Rightarrow> ('sc, 'fo) AnomalyDetector \<Rightarrow> frame \<Rightarrow> 'fo" where
  "fitted_forest sk self frm = forest_fit sk (contamination self) (scaled_breaks sk frm)"

definition predictions ::
  "('sc, 'fo) sklearn \<Rightarrow> ('sc, 'fo) AnomalyDetector \<Rightarrow> frame \<Rightarrow> int list" where
  "predictions sk self frm =
     forest_predict sk (fitted_forest sk self frm) (scaled_breaks sk frm)"

definition anomaly_flag ::
  "('sc, 'fo) sklearn \<Rightarrow> ('sc, 'fo) AnomalyDetector \<Rightarrow> frame \<Rightarrow> row \<Rightarrow> int" where
  "anomaly_flag sk self frm r =
     fillna0_int
       (case map_of (zip (map idx (break_rows frm)) (map to_binary (predictions sk self frm)))
               (idx r) of
          None \<Rightarrow> None
        | Some v \<Rightarrow> v)"

section \<open>A sample batch\<close>

text \<open>
  The scenario of the specification (one identity, 2024-01-31 then 2024-02-29, given out of
  order), a record that differs by 0.50 and a record whose IHUB balance is zero.
\<close>

definition blank_row :: row where
  "blank_row =
     \<lparr>idx = 0, AsofDate = 0, Company = [], Account = [], AU = [], Currency = [],
      Primary_Account = [], Secondary_Account = [], GL_Balance = 0, IHUB_Balance = 0,
      CompositeKey = [], Balance_Difference = 0, Abs_Difference = 0, Match_Status = [],
      Pct_Difference = None, Previous_Balance_Difference = None, Difference_Change = None,
      Is_Anomaly = 0, Is_Anomaly_y = None, Anomaly_Score = 0, Break_Classification = [],
      Comments = []\<rparr>"

definition sample_row :: "nat \<Rightarrow> int \<Rightarrow> string \<Rightarrow> real \<Rightarrow> real \<Rightarrow> row" where
  "sample_row i date company gl ihub =
     blank_row\<lparr>idx := i, AsofDate := date, Company := company, Account := ''Acc1'',
               AU := ''AU1'', Currency := ''USD'', Primary_Account := ''PA1'',
               Secondary_Account := ''SA1'', GL_Balance := gl, IHUB_Balance := ihub\<rparr>"

definition sample_frame :: frame where
  "sample_frame =
     \<lparr>columns = required_columns,
      rows = [sample_row 0 19782 ''Co1'' 105 100,
              sample_row 1 19753 ''Co1'' 100 100,
              sample_row 2 19753 ''Co2'' 100.5 100,
              sample_row 3 19753 ''Co3'' 250 0]\<rparr>"

definition sample_processor :: DataProcessor where
  "sample_processor = \<lparr>file_path = ''SAMPLE_DATA2.xlsx'', df = Some sample_frame\<rparr>"

definition matches_only_frame :: frame where
  "matches_only_frame =
     \<lparr>columns = required_columns,
      rows = [sample_row 0 19753 ''Co1'' 100 100]\<rparr>"

text \<open>A stand-in for scikit-learn, to run the scorer on the sample batch.\<close>

definition toy_sklearn :: "(unit, unit) sklearn" where
  "toy_sklearn =
     \<lparr>scaler_fit = (\<lambda>X. ()),
      scaler_transform = (\<lambda>sc X. X),
      forest_fit = (\<lambda>c X. ()),
      forest_predict = (\<lambda>fo X. map (\<lambda>x. if 100 < \<bar>fst x\<bar> then - 1 else 1) X),
      forest_score_samples = (\<lambda>fo X. map (\<lambda>x. - \<bar>fst x\<bar>) X)\<rparr>"

text \<open>
  The sample batch as \<open>load_data\<close> and \<open>clean_data\<close> would leave it, the frame
  \<open>full_pipeline\<close> makes of it, and the frame after \<open>preprocess_data\<close> and
  \<open>calculate_differences\<close> alone (the temporal linkage never run).
\<close>

definition sample_load :: "DataProcessor \<Rightarrow> error + DataProcessor" where
  "sample_load self = Inr (self\<lparr>df := Some sample_frame\<rparr>)"

definition sample_clean :: "DataProcessor \<Rightarrow> error + DataProcessor" where
  "sample_clean self = Inr self"

definition processed_sample :: frame where
  "processed_sample =
     (case full_pipeline sample_load sample_clean \<lparr>file_path = ''SAMPLE_DATA2.xlsx'', df = None\<rparr> of
        Inl e \<Rightarrow> \<lparr>columns = [], rows = []\<rparr>
      | Inr frm \<Rightarrow> frm)"


text \<open>The frame \<open>full_pipeline\<close> makes of a batch whose only record is a Match.\<close>

definition matches_only_processed :: frame where
  "matches_only_processed =
     (case full_pipeline (\<lambda>self. Inr (self\<lparr>df := Some matches_only_frame\<rparr>)) sample_clean
             \<lparr>file_path = ''SAMPLE_DATA2.xlsx'', df = None\<rparr> of
        Inl e \<Rightarrow> \<lparr>columns = [], rows = []\<rparr>
      | Inr frm \<Rightarrow> frm)"

text \<open>
  Stand-ins for the collaborators of \<open>execute\<close> that never fail, and a workflow
  configured as the script of the repository configures it (no token).
\<close>

definition toy_collaborators :: "(unit, unit, unit) collaborators" where
  "toy_collaborators =
     \<lparr>load_data = sample_load,
      clean_data = sample_clean,
      sklearn_lib = toy_sklearn,
      hub = (\<lambda>name. Inr ()),
      call = (\<lambda>llm prompt_text. Inr ''ok''),
      break_prompt = (\<lambda>r. CompositeKey r),
      summary_prompt = (\<lambda>total matches breaks anomalies. ''summary''),
      write_files = (\<lambda>path frm summary. Inr ())\<rparr>"

definition sample_workflow :: ReconciliationWorkflow where
  "sample_workflow =
     \<lparr>input_path = ''SAMPLE_DATA2.xlsx'', output_path = ''RECONCILIATION_RESULTS_HF.xlsx'',
      hf_token = None, results = None\<rparr>"

section \<open>Lemmas on the helpers\<close>

lemma rint_of_int: "rint (of_int n) = n"
  by (simp add: rint_def)

lemma round2_idem: "round2 (round2 x) = round2 x"
  by (simp add: round2_def rint_of_int)

lemma set_add_column: "set (add_column c cs) = insert c (set cs)"
  by (auto simp: add_column_def)

lemma add_column_present: "c \<in> set cs \<Longrightarrow> add_column c cs = cs"
  by (simp add: add_column_def)

lemma insort_key_const_fst:
  "\<forall>x \<in> set xs. fst (f x) = c \<Longrightarrow> fst (f a) = c \<Longrightarrow>
   insort_key f a xs = insort_key (\<lambda>x. snd (f x)) a xs"
  by (induction xs) (auto simp: less_eq_prod_def prod_eq_iff)

lemma sort_key_const_fst:
  fixes f :: "'a \<Rightarrow> 'k::linorder \<times> 'v::linorder"
  shows "\<forall>x \<in> set xs. fst (f x) = c \<Longrightarrow> sort_key f xs = sort_key (\<lambda>x. snd (f x)) xs"
proof (induction xs)
  case Nil
  then show ?case by simp
next
  case (Cons a xs)
  then have "sort_key f xs = sort_key (\<lambda>x. snd (f x)) xs" by simp
  moreover have "\<forall>x \<in> set (sort_key (\<lambda>x. snd (f x)) xs). fst (f x) = c"
    using Cons.prems by simp
  ultimately show ?case
    using Cons.prems insort_key_const_fst [of "sort_key (\<lambda>x. snd (f x)) xs" f c a] by simp
qed

lemma insort_key_map:
  "insort_key f (g a) (map g xs) = map g (insort_key (\<lambda>x. f (g x)) a xs)"
  by (induction xs) simp_all

lemma sort_key_map: "sort_key f (map g xs) = map g (sort_key (\<lambda>x. f (g x)) xs)"
  by (induction xs) (simp_all add: insort_key_map)

section \<open>The stages of the Difference Engine, row by row\<close>

lemma preprocess_data_Some:
  assumes "df self = Some d"
  shows "preprocess_data self =
     Inr (self\<lparr>df := Some \<lparr>columns = add_column ''CompositeKey'' (columns d),
                            rows = sort_key key_date (map prep_row (rows d))\<rparr>\<rparr>)"
proof -
  have k: "key_date = (\<lambda>r. (CompositeKey r, AsofDate r))"
    by (rule ext) (simp add: key_date_def)
  have p: "prep_row = (\<lambda>r. r\<lparr>GL_Balance := round2 (GL_Balance r),
                IHUB_Balance := round2 (IHUB_Balance r), CompositeKey := composite_key r\<rparr>)"
    by (rule ext) (simp add: prep_row_def)
  from assms show ?thesis
    by (simp add: preprocess_data_def Let_def comp_def k p composite_key_def)
qed

lemma calculate_differences_Some:
  assumes "df self = Some d"
  shows "calculate_differences self =
     Inr (self\<lparr>df := Some \<lparr>columns = add_column ''Pct Difference''
                                       (add_column ''Match Status''
                                         (add_column ''Abs Difference''
                                           (add_column ''Balance Difference'' (columns d)))),
                            rows = map diff_row (rows d)\<rparr>\<rparr>)"
proof -
  have p: "diff_row = (\<lambda>r. r\<lparr>Balance_Difference := GL_Balance r - IHUB_Balance r,
                  Abs_Difference := \<bar>GL_Balance r - IHUB_Balance r\<bar>,
                  Match_Status := (if \<bar>GL_Balance r - IHUB_Balance r\<bar> < 1 then ''Match'' else ''Break''),
                  Pct_Difference := (if IHUB_Balance r \<noteq> 0
                                     then Some ((GL_Balance r - IHUB_Balance r) / IHUB_Balance r * 100)
                                     else None)\<rparr>)"
    by (rule ext) (simp add: diff_row_def)
  from assms show ?thesis
    by (simp add: calculate_differences_def Let_def comp_def p pct_difference_def)
qed

lemma map2_link:
  "map (\<lambda>r. r\<lparr>Difference_Change := fsub (Balance_Difference r) (Previous_Balance_Difference r)\<rparr>)
     (map2 (\<lambda>r p. r\<lparr>Previous_Balance_Difference := p\<rparr>) rs (groupby_shift m rs))
   = link_rows m rs"
  by (induction rs arbitrary: m) (simp_all add: link_row_def)

lemma add_previous_differences_Some:
  assumes "df self = Some d"
    and "''CompositeKey'' \<in> set (columns d)"
    and "''Balance Difference'' \<in> set (columns d)"
  shows "add_previous_differences self =
     Inr (self\<lparr>df := Some \<lparr>columns = add_column ''Difference Change''
                                       (add_column ''Previous Balance Difference'' (columns d)),
                            rows = link_rows Map.empty (rows d)\<rparr>\<rparr>)"
  using assms map2_link [of "rows d" Map.empty]
  by (simp add: add_previous_differences_def Let_def)

lemma two_step_Some:
  assumes "df self = Some d"
  shows "and_then (preprocess_data self) calculate_differences
         = Inr (self\<lparr>df := Some \<lparr>columns = two_step_columns (columns d),
                                  rows = two_step_rows (rows d)\<rparr>\<rparr>)"
  using assms
  by (simp add: and_then_def preprocess_data_Some calculate_differences_Some
      two_step_rows_def two_step_columns_def)

lemma difference_engine_Some:
  assumes "df self = Some d"
  shows "difference_engine self
         = Inr (self\<lparr>df := Some \<lparr>columns = engine_columns (columns d),
                                  rows = engine_rows (rows d)\<rparr>\<rparr>)"
  using assms
  by (simp add: difference_engine_def and_then_def preprocess_data_Some
      calculate_differences_Some add_previous_differences_Some set_add_column
      engine_rows_def engine_columns_def two_step_columns_def)

lemma prep_diff_prep: "prep_row (diff_row (prep_row r)) = diff_row (prep_row r)"
  by (simp add: prep_row_def diff_row_def round2_idem composite_key_def)

lemma diff_row_fix: "diff_row (diff_row r) = diff_row r"
  by (simp add: diff_row_def)

lemma fixed_link_row:
  "prep_row (link_row p (diff_row (prep_row r))) = link_row p (diff_row (prep_row r))"
  "diff_row (link_row p (diff_row (prep_row r))) = link_row p (diff_row (prep_row r))"
  by (simp_all add: prep_row_def diff_row_def link_row_def round2_idem composite_key_def)

lemma key_date_diff_row: "key_date (diff_row r) = key_date r"
  by (simp add: key_date_def diff_row_def)

lemma key_date_link_row: "key_date (link_row p r) = key_date r"
  by (simp add: key_date_def link_row_def)

lemma map_key_date_link_rows: "map key_date (link_rows m rs) = map key_date rs"
  by (induction rs arbitrary: m) (simp_all add: key_date_link_row)

lemma link_rows_idem: "link_rows m (link_rows m rs) = link_rows m rs"
  by (induction rs arbitrary: m) (simp_all add: link_row_def)

lemma in_link_rows:
  "r \<in> set (link_rows m rs) \<Longrightarrow> \<exists>p r0. r0 \<in> set rs \<and> r = link_row p r0"
proof (induction rs arbitrary: m)
  case Nil
  then show ?case by simp
next
  case (Cons a rs)
  from Cons.prems
  consider "r = link_row (m (CompositeKey a)) a"
    | "r \<in> set (link_rows (m(CompositeKey a \<mapsto> Balance_Difference a)) rs)"
    by auto
  then show ?case
  proof cases
    case 1
    then show ?thesis by auto
  next
    case 2
    from Cons.IH [OF this] show ?thesis by auto
  qed
qed

lemma in_two_step_rows:
  "r \<in> set (two_step_rows rs) \<Longrightarrow> \<exists>r0. r0 \<in> set rs \<and> r = diff_row (prep_row r0)"
  by (auto simp: two_step_rows_def)

lemma engine_rows_alt: "engine_rows rs = link_rows Map.empty (two_step_rows rs)"
  by (simp add: engine_rows_def two_step_rows_def)

lemma in_engine_rows:
  assumes "r \<in> set (engine_rows rs)"
  shows "\<exists>p r0. r0 \<in> set rs \<and> r = link_row p (diff_row (prep_row r0))"
proof -
  from assms have "r \<in> set (link_rows Map.empty (two_step_rows rs))"
    by (simp add: engine_rows_alt)
  then show ?thesis
    by (blast dest: in_link_rows in_two_step_rows)
qed

lemma filter_link_rows:
  "filter (\<lambda>r. CompositeKey r = k) (link_rows m rs)
   = link_group (m k) (filter (\<lambda>r. CompositeKey r = k) rs)"
  by (induction rs arbitrary: m) (auto simp: link_row_def)

lemma length_link_group: "length (link_group p g) = length g"
  by (induction g arbitrary: p) simp_all

lemma map_link_group:
  "map idx (link_group p g) = map idx g"
  "map AsofDate (link_group p g) = map AsofDate g"
  "map Balance_Difference (link_group p g) = map Balance_Difference g"
  by (induction g arbitrary: p) (simp_all add: link_row_def)

lemma link_group_nth:
  "i < length g \<Longrightarrow>
   link_group p g ! i
   = link_row (if i = 0 then p else Some (Balance_Difference (g ! (i - 1)))) (g ! i)"
proof (induction g arbitrary: p i)
  case Nil
  then show ?case by simp
next
  case (Cons r g)
  show ?case
  proof (cases i)
    case 0
    then show ?thesis by simp
  next
    case (Suc j)
    with Cons show ?thesis by (cases j) simp_all
  qed
qed

lemma engine_group:
  "filter (\<lambda>r. CompositeKey r = k) (engine_rows rs) =
   link_group None (map diff_row (map prep_row
     (sort_key AsofDate (filter (\<lambda>r. composite_key r = k) rs))))"
proof -
  have kd: "(\<lambda>x. snd (key_date x)) = AsofDate"
    by (rule ext) (simp add: key_date_def)
  have 1: "filter (\<lambda>r. CompositeKey r = k) (map diff_row xs)
           = map diff_row (filter (\<lambda>r. CompositeKey r = k) xs)" for xs
    by (induction xs) (simp_all add: diff_row_def)
  have 2: "filter (\<lambda>r. CompositeKey r = k) (map prep_row xs)
           = map prep_row (filter (\<lambda>r. composite_key r = k) xs)" for xs
    by (induction xs) (simp_all add: prep_row_def)
  have 3: "sort_key key_date (filter (\<lambda>r. CompositeKey r = k) xs)
           = sort_key AsofDate (filter (\<lambda>r. CompositeKey r = k) xs)" for xs
    using sort_key_const_fst [of "filter (\<lambda>r. CompositeKey r = k) xs" key_date k]
    by (simp add: kd key_date_def)
  have 4: "sort_key AsofDate (map prep_row xs) = map prep_row (sort_key AsofDate xs)" for xs
    by (simp add: sort_key_map prep_row_def)
  have "filter (\<lambda>r. CompositeKey r = k) (sort_key key_date (map prep_row rs))
        = sort_key AsofDate (filter (\<lambda>r. CompositeKey r = k) (map prep_row rs))"
    by (simp only: filter_sort 3)
  also have "\<dots> = map prep_row (sort_key AsofDate (filter (\<lambda>r. composite_key r = k) rs))"
    by (simp only: 2 4)
  finally show ?thesis
    by (simp only: engine_rows_def filter_link_rows 1)
qed

lemma two_step_columns_idem: "two_step_columns (two_step_columns cs) = two_step_columns cs"
  by (simp add: two_step_columns_def add_column_present set_add_column)

lemma engine_columns_idem: "engine_columns (engine_columns cs) = engine_columns cs"
  by (simp add: engine_columns_def two_step_columns_def add_column_present set_add_column)

lemma two_step_on_fixed:
  assumes fixed: "\<forall>r \<in> set rs. prep_row r = r \<and> diff_row r = r"
    and sorted: "sorted (map key_date rs)"
  shows "two_step_rows rs = rs"
proof -
  have "map prep_row rs = rs"
    using fixed by (simp add: map_idI)
  moreover have "sort_key key_date rs = rs"
    using sorted by (rule sort_key_id_if_sorted)
  moreover have "map diff_row rs = rs"
    using fixed by (simp add: map_idI)
  ultimately show ?thesis
    by (simp add: two_step_rows_def)
qed

lemma sorted_two_step_rows: "sorted (map key_date (two_step_rows rs))"
proof -
  have "map key_date (two_step_rows rs) = map key_date (sort_key key_date (map prep_row rs))"
    by (simp add: two_step_rows_def key_date_diff_row)
  then show ?thesis by simp
qed

lemma two_step_rows_idem: "two_step_rows (two_step_rows rs) = two_step_rows rs"
proof (rule two_step_on_fixed)
  show "\<forall>r \<in> set (two_step_rows rs). prep_row r = r \<and> diff_row r = r"
    by (auto dest!: in_two_step_rows simp: prep_diff_prep diff_row_fix)
  show "sorted (map key_date (two_step_rows rs))"
    by (rule sorted_two_step_rows)
qed

lemma engine_rows_idem: "engine_rows (engine_rows rs) = engine_rows rs"
proof -
  have "two_step_rows (engine_rows rs) = engine_rows rs"
  proof (rule two_step_on_fixed)
    show "\<forall>r \<in> set (engine_rows rs). prep_row r = r \<and> diff_row r = r"
      by (auto dest!: in_engine_rows simp: fixed_link_row)
    show "sorted (map key_date (engine_rows rs))"
      by (simp add: engine_rows_alt map_key_date_link_rows sorted_two_step_rows)
  qed
  then have "engine_rows (engine_rows rs) = link_rows Map.empty (engine_rows rs)"
    by (simp add: engine_rows_alt)
  also have "\<dots> = engine_rows rs"
    by (simp add: engine_rows_alt link_rows_idem)
  finally show ?thesis .
qed

section \<open>The pipeline as a whole\<close>

lemma and_then_Inr: "and_then m f = Inr y \<longleftrightarrow> (\<exists>x. m = Inr x \<and> f x = Inr y)"
  by (cases m) (simp_all add: and_then_def)

lemma and_then_Inl: "m = Inl e \<Longrightarrow> and_then m f = Inl e"
  by (simp add: and_then_def)

lemma and_then_Inr_eq: "m = Inr x \<Longrightarrow> and_then m f = f x"
  by (simp add: and_then_def)

lemma get_processed_data_Some:
  "df self = Some d \<Longrightarrow>
   get_processed_data self
   = Inr \<lparr>columns = filter (\<lambda>c. c \<in> set (columns d) \<and> c \<noteq> ''CompositeKey'') column_order,
          rows = rows d\<rparr>"
  by (simp add: get_processed_data_def Let_def conj_commute)

lemma preprocess_data_Inr: "preprocess_data s = Inr s' \<Longrightarrow> \<exists>d. df s = Some d"
  by (cases "df s") (simp_all add: preprocess_data_def)

lemma difference_engine_Inr:
  assumes "difference_engine s = Inr s'"
  shows "\<exists>d. df s = Some d
           \<and> s' = s\<lparr>df := Some \<lparr>columns = engine_columns (columns d),
                                  rows = engine_rows (rows d)\<rparr>\<rparr>"
proof -
  from assms obtain s1 where "preprocess_data s = Inr s1"
    unfolding difference_engine_def and_then_Inr by blast
  then obtain d where d: "df s = Some d"
    by (blast dest: preprocess_data_Inr)
  from difference_engine_Some [OF d] assms d show ?thesis by simp
qed

lemma full_pipeline_Inr:
  assumes "full_pipeline ld cl self = Inr frm"
  shows "\<exists>d::frame. frm = \<lparr>columns = filter (\<lambda>c. c \<in> set (engine_columns (columns d))
                                        \<and> c \<noteq> ''CompositeKey'') column_order,
                      rows = engine_rows (rows d)\<rparr>"
proof -
  from assms obtain s2 s3 where
    eng: "difference_engine s2 = Inr s3" and get: "get_processed_data s3 = Inr frm"
    unfolding full_pipeline_def difference_engine_def and_then_Inr by blast
  from difference_engine_Inr [OF eng] obtain d :: frame where
    "s3 = s2\<lparr>df := Some \<lparr>columns = engine_columns (columns d), rows = engine_rows (rows d)\<rparr>\<rparr>"
    by blast
  with get have "frm = \<lparr>columns = filter (\<lambda>c. c \<in> set (engine_columns (columns d))
                                        \<and> c \<noteq> ''CompositeKey'') column_order,
                      rows = engine_rows (rows d)\<rparr>"
    by (simp add: get_processed_data_Some)
  then show ?thesis by (rule exI)
qed

lemma engine_columns_members:
  "''Match Status'' \<in> set (engine_columns cs)"
  "''Balance Difference'' \<in> set (engine_columns cs)"
  "''Previous Balance Difference'' \<in> set (engine_columns cs)"
  by (simp_all add: engine_columns_def two_step_columns_def set_add_column)

lemma processed_sample_eq:
  "full_pipeline sample_load sample_clean \<lparr>file_path = ''SAMPLE_DATA2.xlsx'', df = None\<rparr>
   = Inr processed_sample"
  "columns processed_sample = column_order"
  "rows processed_sample = engine_rows (rows sample_frame)"
proof -
  have "difference_engine \<lparr>file_path = ''SAMPLE_DATA2.xlsx'', df = Some sample_frame\<rparr> = Inr s
    \<Longrightarrow> full_pipeline sample_load sample_clean \<lparr>file_path = ''SAMPLE_DATA2.xlsx'', df = None\<rparr>
        = get_processed_data s" for s
    by (simp add: full_pipeline_def difference_engine_def sample_load_def sample_clean_def
        and_then_def)
  note run = this [OF difference_engine_Some]
  have run': "full_pipeline sample_load sample_clean \<lparr>file_path = ''SAMPLE_DATA2.xlsx'', df = None\<rparr>
      = Inr \<lparr>columns = column_order, rows = engine_rows (rows sample_frame)\<rparr>"
    by (subst run, simp, subst get_processed_data_Some, simp)
       (simp add: engine_columns_def two_step_columns_def set_add_column add_column_def
         column_order_def required_columns_def sample_frame_def)
  then show "full_pipeline sample_load sample_clean \<lparr>file_path = ''SAMPLE_DATA2.xlsx'', df = None\<rparr>
   = Inr processed_sample"
    "columns processed_sample = column_order"
    "rows processed_sample = engine_rows (rows sample_frame)"
    by (simp_all add: processed_sample_def)
qed


section \<open>The Difference Engine\<close>

lemmas sample_defs = sample_frame_def sample_row_def blank_row_def prep_row_def diff_row_def
  composite_key_def key_date_def round2_def rint_def link_row_def fsub_def required_columns_def

text \<open>
  C9. \<open>calculate_differences\<close> returns for every frame; a record with a non-zero IHUB
  balance gets the difference divided by that balance, times 100, and a record with a zero
  IHUB balance gets the null value, never a number.
\<close>

theorem pct_difference_null_on_zero_divisor:
  assumes "df self = Some d"
  shows "\<exists>self' d'. calculate_differences self = Inr self' \<and> df self' = Some d'
           \<and> map idx (rows d') = map idx (rows d)
           \<and> map IHUB_Balance (rows d') = map IHUB_Balance (rows d)
           \<and> (\<forall>r \<in> set (rows d').
                  Balance_Difference r = GL_Balance r - IHUB_Balance r
                \<and> (IHUB_Balance r \<noteq> 0 \<longrightarrow>
                     Pct_Difference r = Some (Balance_Difference r / IHUB_Balance r * 100))
                \<and> (IHUB_Balance r = 0 \<longrightarrow> Pct_Difference r = None))"
  using assms by (simp add: calculate_differences_def Let_def comp_def pct_difference_def)

theorem pct_difference_null_on_zero_divisor_witness:
  "df sample_processor = Some sample_frame
   \<and> (\<exists>self' d'. calculate_differences sample_processor = Inr self' \<and> df self' = Some d'
         \<and> map IHUB_Balance (rows d') = [100, 100, 100, 0]
         \<and> map Pct_Difference (rows d') = [Some 5, Some 0, Some 0.5, None])"
proof -
  have h: "df sample_processor = Some sample_frame"
    by (simp add: sample_processor_def)
  from pct_difference_null_on_zero_divisor [OF h] h show ?thesis
    by (simp add: calculate_differences_Some sample_defs)
qed

text \<open>
  C4. After the three stages of the Difference Engine every record carries the
  concatenated identity key; the records with a given key are the input records with that
  key in ascending date order (ties in input order); within such a group the previous
  difference of the first record is null and that of every later record is the balance
  difference of the record just before it; and the difference change is the balance
  difference minus the previous difference, null where the previous difference is null.
\<close>

theorem previous_difference_is_predecessor:
  assumes "df self = Some d"
  shows "\<exists>self' d'. difference_engine self = Inr self' \<and> df self' = Some d'
           \<and> (\<forall>r \<in> set (rows d'). CompositeKey r = composite_key r)
           \<and> (\<forall>k. let g = filter (\<lambda>r. CompositeKey r = k) (rows d') in
                  map idx g
                    = map idx (sort_key AsofDate (filter (\<lambda>r. composite_key r = k) (rows d)))
                \<and> sorted (map AsofDate g)
                \<and> (\<forall>i < length g.
                      Previous_Balance_Difference (g ! i)
                        = (if i = 0 then None else Some (Balance_Difference (g ! (i - 1))))
                    \<and> Difference_Change (g ! i)
                        = (case Previous_Balance_Difference (g ! i) of
                             None \<Rightarrow> None
                           | Some p \<Rightarrow> Some (Balance_Difference (g ! i) - p))))"
proof -
  let ?d' = "\<lparr>columns = engine_columns (columns d), rows = engine_rows (rows d)\<rparr>"
  have run: "difference_engine self = Inr (self\<lparr>df := Some ?d'\<rparr>)"
    using assms by (rule difference_engine_Some)
  have keys: "\<forall>r \<in> set (engine_rows (rows d)). CompositeKey r = composite_key r"
    by (auto dest!: in_engine_rows simp: link_row_def diff_row_def prep_row_def composite_key_def)
  have groups: "map idx g = map idx s \<and> sorted (map AsofDate g)
      \<and> (\<forall>i < length g.
            Previous_Balance_Difference (g ! i)
              = (if i = 0 then None else Some (Balance_Difference (g ! (i - 1))))
          \<and> Difference_Change (g ! i)
              = (case Previous_Balance_Difference (g ! i) of
                   None \<Rightarrow> None
                 | Some p \<Rightarrow> Some (Balance_Difference (g ! i) - p)))"
    if g: "g = filter (\<lambda>r. CompositeKey r = k) (engine_rows (rows d))"
      and s: "s = sort_key AsofDate (filter (\<lambda>r. composite_key r = k) (rows d))"
    for g s k
  proof -
    define g0 where "g0 = map diff_row (map prep_row s)"
    have gl: "g = link_group None g0"
      unfolding g s g0_def by (rule engine_group)
    have len: "length g = length g0"
      by (simp add: gl length_link_group)
    have idx0: "map idx g0 = map idx s" and date0: "map AsofDate g0 = map AsofDate s"
      by (simp_all add: g0_def diff_row_def prep_row_def)
    have 1: "map idx g = map idx s"
      by (simp add: gl map_link_group idx0)
    have 2: "sorted (map AsofDate g)"
      by (simp add: gl map_link_group date0 s)
    have bd: "Balance_Difference (g ! j) = Balance_Difference (g0 ! j)" if "j < length g" for j
    proof -
      have "map Balance_Difference g ! j = map Balance_Difference g0 ! j"
        by (simp add: gl map_link_group)
      with that len show ?thesis by simp
    qed
    have 3: "Previous_Balance_Difference (g ! i)
               = (if i = 0 then None else Some (Balance_Difference (g ! (i - 1))))
           \<and> Difference_Change (g ! i)
               = (case Previous_Balance_Difference (g ! i) of
                    None \<Rightarrow> None
                  | Some p \<Rightarrow> Some (Balance_Difference (g ! i) - p))"
      if i: "i < length g" for i
    proof -
      from i len have "i < length g0" by simp
      then have nth: "g ! i
          = link_row (if i = 0 then None else Some (Balance_Difference (g0 ! (i - 1)))) (g0 ! i)"
        unfolding gl by (rule link_group_nth)
      have "i - 1 < length g" using i by simp
      then have prev: "Balance_Difference (g ! (i - 1)) = Balance_Difference (g0 ! (i - 1))"
        by (rule bd)
      from prev show ?thesis
        by (simp add: nth link_row_def fsub_def)
    qed
    from 1 2 3 show ?thesis by blast
  qed
  have "df (self\<lparr>df := Some ?d'\<rparr>) = Some ?d'" by simp
  with run keys groups show ?thesis
    by (simp add: Let_def)
qed

theorem previous_difference_is_predecessor_witness:
  "df sample_processor = Some sample_frame
   \<and> (\<exists>self' d'. difference_engine sample_processor = Inr self' \<and> df self' = Some d'
         \<and> map idx (rows d') = [1, 0, 2, 3]
         \<and> map AsofDate (rows d') = [19753, 19782, 19753, 19753]
         \<and> map CompositeKey (rows d')
             = [''Co1_Acc1_AU1_USD_PA1'', ''Co1_Acc1_AU1_USD_PA1'',
                ''Co2_Acc1_AU1_USD_PA1'', ''Co3_Acc1_AU1_USD_PA1'']
         \<and> map Balance_Difference (rows d') = [0, 5, 0.5, 250]
         \<and> map Previous_Balance_Difference (rows d') = [None, Some 0, None, None]
         \<and> map Difference_Change (rows d') = [None, Some 5, None, None])"
proof -
  have h: "df sample_processor = Some sample_frame"
    by (simp add: sample_processor_def)
  from previous_difference_is_predecessor [OF h] h show ?thesis
    by (simp add: difference_engine_Some engine_rows_def sample_defs)
qed

text \<open>
  C8. Running \<open>preprocess_data\<close> and \<open>calculate_differences\<close> again on the processor
  they produced gives back that very processor, so every balance difference and match
  status is reproduced; the same holds when \<open>add_previous_differences\<close> is part of both
  runs.
\<close>

theorem difference_engine_idempotent:
  assumes "df self = Some d"
  shows "\<exists>s1 s2 d1.
           and_then (preprocess_data self) calculate_differences = Inr s1
         \<and> and_then (preprocess_data s1) calculate_differences = Inr s1
         \<and> df s1 = Some d1
         \<and> map Balance_Difference (rows d1) = map (\<lambda>r. GL_Balance r - IHUB_Balance r) (rows d1)
         \<and> difference_engine self = Inr s2
         \<and> difference_engine s2 = Inr s2"
proof -
  let ?d1 = "\<lparr>columns = two_step_columns (columns d), rows = two_step_rows (rows d)\<rparr>"
  let ?s1 = "self\<lparr>df := Some ?d1\<rparr>"
  let ?d2 = "\<lparr>columns = engine_columns (columns d), rows = engine_rows (rows d)\<rparr>"
  let ?s2 = "self\<lparr>df := Some ?d2\<rparr>"
  have 1: "and_then (preprocess_data self) calculate_differences = Inr ?s1"
    using assms by (rule two_step_Some)
  have d1: "df ?s1 = Some ?d1" by simp
  from two_step_Some [OF d1]
  have 2: "and_then (preprocess_data ?s1) calculate_differences = Inr ?s1"
    by (simp add: two_step_columns_idem two_step_rows_idem)
  have 3: "map Balance_Difference (rows ?d1) = map (\<lambda>r. GL_Balance r - IHUB_Balance r) (rows ?d1)"
    by (simp add: two_step_rows_def diff_row_def)
  have 4: "difference_engine self = Inr ?s2"
    using assms by (rule difference_engine_Some)
  have "df ?s2 = Some ?d2" by simp
  from difference_engine_Some [OF this]
  have 5: "difference_engine ?s2 = Inr ?s2"
    by (simp add: engine_columns_idem engine_rows_idem)
  from 1 2 d1 3 4 5 show ?thesis by blast
qed

theorem difference_engine_idempotent_witness:
  "df sample_processor = Some sample_frame
   \<and> (\<exists>s1 s2 d1.
           and_then (preprocess_data sample_processor) calculate_differences = Inr s1
         \<and> and_then (preprocess_data s1) calculate_differences = Inr s1
         \<and> df s1 = Some d1
         \<and> map Balance_Difference (rows d1) = map (\<lambda>r. GL_Balance r - IHUB_Balance r) (rows d1)
         \<and> difference_engine sample_processor = Inr s2
         \<and> difference_engine s2 = Inr s2)"
proof -
  have h: "df sample_processor = Some sample_frame"
    by (simp add: sample_processor_def)
  from difference_engine_idempotent [OF h] h show ?thesis
    by blast
qed

section \<open>The classifier\<close>

lemma apply_rows_Inr:
  "\<forall>r \<in> set rs. f r = Inr (g r) \<Longrightarrow> apply_rows f rs = Inr (map g rs)"
  by (induction rs) simp_all

lemma map2_same: "map2 h rs (map g rs) = map (\<lambda>r. h r (g r)) rs"
  by (induction rs) simp_all

lemma classify_break_total:
  assumes "''Match Status'' \<in> set cols" and "''Balance Difference'' \<in> set cols"
  shows "classify_break HybridAnomalyClassifier_init cols r = Inr (label_of cols r)"
  using assms
  by (simp add: label_of_def classify_break_def HybridAnomalyClassifier_init_def Let_def
      split: option.splits)



lemma classify_all_Inr:
  assumes "''Match Status'' \<in> set (columns frm)"
    and "''Balance Difference'' \<in> set (columns frm)"
  shows "classify_all HybridAnomalyClassifier_init frm
         = Inr \<lparr>columns = add_column ''Break Classification'' (columns frm),
                rows = map (\<lambda>r. r\<lparr>Break_Classification := label_of (columns frm) r\<rparr>)
                         (rows frm)\<rparr>"
proof -
  have "apply_rows (classify_break HybridAnomalyClassifier_init (columns frm)) (rows frm)
        = Inr (map (label_of (columns frm)) (rows frm))"
    using assms by (intro apply_rows_Inr ballI classify_break_total)
  with assms show ?thesis
    by (simp add: classify_all_def map2_same)
qed

lemma processed_sample_columns:
  "''Match Status'' \<in> set (columns processed_sample)"
  "''Balance Difference'' \<in> set (columns processed_sample)"
  "''Previous Balance Difference'' \<in> set (columns processed_sample)"
  "''Is Anomaly'' \<notin> set (columns processed_sample)"
  by (simp_all add: processed_sample_eq column_order_def required_columns_def)

lemma processed_sample_fields:
  "map idx (rows processed_sample) = [1, 0, 2, 3]"
  "map Match_Status (rows processed_sample) = [''Match'', ''Break'', ''Match'', ''Break'']"
  "map Balance_Difference (rows processed_sample) = [0, 5, 0.5, 250]"
  "map Previous_Balance_Difference (rows processed_sample) = [None, Some 0, None, None]"
  by (simp_all add: processed_sample_eq engine_rows_def sample_defs)

lemma full_pipeline_columns:
  assumes "full_pipeline ld cl self = Inr frm"
  shows "''Match Status'' \<in> set (columns frm)"
    and "''Balance Difference'' \<in> set (columns frm)"
    and "''Previous Balance Difference'' \<in> set (columns frm)"
    and "''Is Anomaly'' \<notin> set (columns frm)"
proof -
  from full_pipeline_Inr [OF assms] obtain d :: frame where
    frm: "frm = \<lparr>columns = filter (\<lambda>c. c \<in> set (engine_columns (columns d))
                                        \<and> c \<noteq> ''CompositeKey'') column_order,
                  rows = engine_rows (rows d)\<rparr>"
    by (elim exE) (rule that)
  have order: "''Match Status'' \<in> set column_order" "''Balance Difference'' \<in> set column_order"
    "''Previous Balance Difference'' \<in> set column_order" "''Is Anomaly'' \<notin> set column_order"
    by (simp_all add: column_order_def required_columns_def)
  from order show "''Match Status'' \<in> set (columns frm)"
    and "''Balance Difference'' \<in> set (columns frm)"
    and "''Previous Balance Difference'' \<in> set (columns frm)"
    and "''Is Anomaly'' \<notin> set (columns frm)"
    by (simp_all add: frm engine_columns_members)
qed

lemma full_pipeline_rows:
  assumes "full_pipeline ld cl self = Inr frm" and "r \<in> set (rows frm)"
  shows "Balance_Difference r = GL_Balance r - IHUB_Balance r"
    and "Match_Status r = (if \<bar>Balance_Difference r\<bar> < 1 then ''Match'' else ''Break'')"
proof -
  from full_pipeline_Inr [OF assms(1)] obtain d :: frame where
    "frm = \<lparr>columns = filter (\<lambda>c. c \<in> set (engine_columns (columns d))
                                        \<and> c \<noteq> ''CompositeKey'') column_order,
             rows = engine_rows (rows d)\<rparr>"
    by (elim exE) (rule that)
  with assms(2) have "r \<in> set (engine_rows (rows d))" by simp
  from in_engine_rows [OF this] obtain p r0 where r: "r = link_row p (diff_row (prep_row r0))"
    by (elim exE conjE) (rule that)
  show "Balance_Difference r = GL_Balance r - IHUB_Balance r"
    and "Match_Status r = (if \<bar>Balance_Difference r\<bar> < 1 then ''Match'' else ''Break'')"
    by (simp_all add: r link_row_def diff_row_def)
qed

lemma classify_break_Match:
  assumes "''Match Status'' \<in> set cols" and "Match_Status r = ''Match''"
  shows "classify_break self cols r = Inr ''Within Tolerance''"
  using assms by (simp add: classify_break_def)

lemma classify_break_Small:
  assumes "''Match Status'' \<in> set cols" and "''Balance Difference'' \<in> set cols"
    and "Match_Status r \<noteq> ''Match''" and "\<bar>Balance_Difference r\<bar> < 1"
  shows "classify_break HybridAnomalyClassifier_init cols r = Inr ''Small Difference''"
  using assms by (simp add: classify_break_def HybridAnomalyClassifier_init_def Let_def)

lemma processed_sample_length: "length (rows processed_sample) = 4"
  by (simp add: processed_sample_eq engine_rows_def sample_defs)

lemma processed_sample_third:
  "Balance_Difference (rows processed_sample ! 2) = 0.5"
  "Match_Status (rows processed_sample ! 2) = ''Match''"
  "rows processed_sample ! 2 \<in> set (rows processed_sample)"
proof -
  have n: "2 < length (rows processed_sample)"
    by (simp add: processed_sample_length)
  have "map Balance_Difference (rows processed_sample) ! 2 = 0.5"
    "map Match_Status (rows processed_sample) ! 2 = ''Match''"
    by (simp_all only: processed_sample_fields) simp_all
  with n show "Balance_Difference (rows processed_sample ! 2) = 0.5"
    "Match_Status (rows processed_sample ! 2) = ''Match''"
    by (simp_all only: nth_map)
  from n show "rows processed_sample ! 2 \<in> set (rows processed_sample)"
    by (rule nth_mem)
qed

text \<open>
  C6, as the claim states it, fails: the third record of the sample batch leaves the
  pipeline with a balance difference of 0.50, and \<open>classify_break\<close> labels it Within
  Tolerance, not Small Difference.
\<close>

theorem half_unit_difference_counterexample:
  "full_pipeline sample_load sample_clean \<lparr>file_path = ''SAMPLE_DATA2.xlsx'', df = None\<rparr>
     = Inr processed_sample
   \<and> Balance_Difference (rows processed_sample ! 2) = 0.5
   \<and> classify_break HybridAnomalyClassifier_init (columns processed_sample)
        (rows processed_sample ! 2) = Inr ''Within Tolerance''
   \<and> classify_break HybridAnomalyClassifier_init (columns processed_sample)
        (rows processed_sample ! 2) \<noteq> Inr ''Small Difference''"
proof -
  have "classify_break HybridAnomalyClassifier_init (columns processed_sample)
          (rows processed_sample ! 2) = Inr ''Within Tolerance''"
    using processed_sample_columns(1) processed_sample_third(2) by (rule classify_break_Match)
  then show ?thesis
    by (simp add: processed_sample_eq(1) processed_sample_third(1))
qed

text \<open>
  C6, amended. A record that \<open>full_pipeline\<close> returns with a balance difference of 0.50
  has the status Match, and \<open>classify_break\<close> labels it Within Tolerance whatever its
  previous difference is. Small Difference is the label, whatever the previous difference,
  of a record with an absolute difference below 1 whose status is not Match.
\<close>

theorem half_unit_difference_is_within_tolerance:
  assumes "full_pipeline ld cl self = Inr frm"
    and "r \<in> set (rows frm)"
    and "Balance_Difference r = 0.5"
  shows "Match_Status r = ''Match''
       \<and> classify_break HybridAnomalyClassifier_init (columns frm) r = Inr ''Within Tolerance''
       \<and> classify_break HybridAnomalyClassifier_init (columns frm)
            (r\<lparr>Previous_Balance_Difference := p\<rparr>) = Inr ''Within Tolerance''
       \<and> (''Match Status'' \<in> set cols \<and> ''Balance Difference'' \<in> set cols
            \<and> Match_Status r' \<noteq> ''Match'' \<and> \<bar>Balance_Difference r'\<bar> < 1
          \<longrightarrow> classify_break HybridAnomalyClassifier_init cols
                (r'\<lparr>Previous_Balance_Difference := p\<rparr>) = Inr ''Small Difference'')"
proof -
  have m: "Match_Status r = ''Match''"
    using full_pipeline_rows(2) [OF assms(1,2)] assms(3) by simp
  have cols: "''Match Status'' \<in> set (columns frm)"
    using assms(1) by (rule full_pipeline_columns)
  have 1: "classify_break HybridAnomalyClassifier_init (columns frm) r = Inr ''Within Tolerance''"
    using cols m by (rule classify_break_Match)
  have 2: "classify_break HybridAnomalyClassifier_init (columns frm)
            (r\<lparr>Previous_Balance_Difference := p\<rparr>) = Inr ''Within Tolerance''"
    using cols by (rule classify_break_Match) (simp add: m)
  have 3: "''Match Status'' \<in> set cols \<and> ''Balance Difference'' \<in> set cols
            \<and> Match_Status r' \<noteq> ''Match'' \<and> \<bar>Balance_Difference r'\<bar> < 1
          \<longrightarrow> classify_break HybridAnomalyClassifier_init cols
                (r'\<lparr>Previous_Balance_Difference := p\<rparr>) = Inr ''Small Difference''"
    by (intro impI, elim conjE, rule classify_break_Small) simp_all
  from m 1 2 3 show ?thesis by (intro conjI)
qed

theorem half_unit_difference_is_within_tolerance_witness:
  "full_pipeline sample_load sample_clean \<lparr>file_path = ''SAMPLE_DATA2.xlsx'', df = None\<rparr>
     = Inr processed_sample
   \<and> rows processed_sample ! 2 \<in> set (rows processed_sample)
   \<and> Balance_Difference (rows processed_sample ! 2) = 0.5
   \<and> Match_Status (rows processed_sample ! 2) = ''Match''
   \<and> classify_break HybridAnomalyClassifier_init (columns processed_sample)
        (rows processed_sample ! 2) = Inr ''Within Tolerance''
   \<and> classify_break HybridAnomalyClassifier_init (columns processed_sample)
        ((rows processed_sample ! 2)\<lparr>Previous_Balance_Difference := Some 7\<rparr>)
        = Inr ''Within Tolerance''"
proof -
  note t = half_unit_difference_is_within_tolerance
             [OF processed_sample_eq(1) processed_sample_third(3) processed_sample_third(1),
              where p = "Some 7" and cols = "[]" and r' = blank_row]
  from t have a: "classify_break HybridAnomalyClassifier_init (columns processed_sample)
        (rows processed_sample ! 2) = Inr ''Within Tolerance''"
    by (elim conjE)
  from t have b: "classify_break HybridAnomalyClassifier_init (columns processed_sample)
        ((rows processed_sample ! 2)\<lparr>Previous_Balance_Difference := Some 7\<rparr>)
        = Inr ''Within Tolerance''"
    by (elim conjE)
  from processed_sample_eq(1) processed_sample_third(3,1,2) a b
  show ?thesis by (intro conjI)
qed







lemma calculate_differences_columns:
  assumes "calculate_differences s = Inr s'" and "df s' = Some d'"
  shows "''Match Status'' \<in> set (columns d')" and "''Balance Difference'' \<in> set (columns d')"
proof -
  from assms(1) obtain d where d: "df s = Some d"
    by (cases "df s") (simp_all add: calculate_differences_def)
  from calculate_differences_Some [OF d] assms
  show "''Match Status'' \<in> set (columns d')" and "''Balance Difference'' \<in> set (columns d')"
    by (auto simp: set_add_column)
qed




section \<open>The anomaly detector\<close>

lemma filter_fst_distinct:
  "distinct (map fst right) \<Longrightarrow>
   map snd (filter (\<lambda>iv. fst iv = i) right)
   = (case map_of right i of None \<Rightarrow> [] | Some v \<Rightarrow> [v])"
proof (induction right)
  case Nil
  then show ?case by simp
next
  case (Cons a right)
  show ?case
  proof (cases "fst a = i")
    case True
    with Cons.prems have "i \<notin> fst ` set right" by auto
    then have "filter (\<lambda>iv. fst iv = i) right = []"
      by (auto simp: filter_empty_conv)
    with True show ?thesis by (cases a) simp
  next
    case False
    with Cons show ?thesis by (cases a) auto
  qed
qed

lemma merge_left_distinct:
  assumes "distinct (map fst right)"
  shows "merge_left left right
         = map (\<lambda>r. (r, case map_of right (idx r) of None \<Rightarrow> None | Some v \<Rightarrow> v)) left"
proof -
  have "(case map snd (filter (\<lambda>iv. fst iv = idx r) right) of
           [] \<Rightarrow> [(r, None)]
         | vs \<Rightarrow> map (\<lambda>v. (r, v)) vs)
        = [(r, case map_of right (idx r) of None \<Rightarrow> None | Some v \<Rightarrow> v)]" for r :: row
    by (simp add: filter_fst_distinct [OF assms] split: option.splits)
  then show ?thesis
    by (simp add: merge_left_def)
qed

lemma distinct_break_rows:
  "distinct (map idx (rows frm)) \<Longrightarrow> distinct (map idx (break_rows frm))"
  by (simp add: break_rows_def distinct_map_filter)

lemma fillna0_int_to_binary:
  "fillna0_int (to_binary p) = 0 \<or> fillna0_int (to_binary p) = 1"
  by (simp add: fillna0_int_def to_binary_def)

lemma anomaly_flag_binary:
  "anomaly_flag sk self frm r = 0 \<or> anomaly_flag sk self frm r = 1"
proof (cases "map_of (zip (map idx (break_rows frm)) (map to_binary (predictions sk self frm)))
                (idx r)")
  case None
  then show ?thesis by (simp add: anomaly_flag_def fillna0_int_def)
next
  case (Some v)
  then have "v \<in> set (map to_binary (predictions sk self frm))"
    by (blast dest: map_of_SomeD set_zip_rightD)
  then obtain p where "v = to_binary p" by auto
  with Some fillna0_int_to_binary [of p] show ?thesis
    by (simp add: anomaly_flag_def)
qed

lemma anomaly_flag_not_break:
  assumes "distinct (map idx (rows frm))" and "r \<in> set (rows frm)"
    and "Match_Status r \<noteq> ''Break''"
  shows "anomaly_flag sk self frm r = 0"
proof -
  have "idx r \<notin> set (map idx (break_rows frm))"
  proof
    assume "idx r \<in> set (map idx (break_rows frm))"
    then obtain b where b: "b \<in> set (rows frm)" "Match_Status b = ''Break''" "idx b = idx r"
      by (auto simp: break_rows_def)
    from assms(1) have "inj_on idx (set (rows frm))"
      by (simp add: distinct_map)
    with b(1,3) assms(2) have "b = r"
      by (auto dest: inj_onD)
    with b(2) assms(3) show False by simp
  qed
  then have "map_of (zip (map idx (break_rows frm)) (map to_binary (predictions sk self frm)))
               (idx r) = None"
    by (metis map_of_eq_None_iff set_zip_leftD surj_pair fst_conv imageE)
  then show ?thesis
    by (simp add: anomaly_flag_def fillna0_int_def)
qed

lemma detect_anomalies_no_breaks:
  assumes "''Match Status'' \<in> set (columns frm)" and "break_rows frm = []"
  shows "detect_anomalies sk self frm
         = Inr (self, \<lparr>columns = add_column ''Is Anomaly'' (columns frm),
                       rows = map (\<lambda>r. r\<lparr>Is_Anomaly := 0\<rparr>) (rows frm)\<rparr>)"
  using assms by (simp add: detect_anomalies_def break_rows_def)

lemma detect_anomalies_breaks:
  assumes "''Match Status'' \<in> set (columns frm)"
    and "''Balance Difference'' \<in> set (columns frm)"
    and "''Previous Balance Difference'' \<in> set (columns frm)"
    and "''Is Anomaly'' \<notin> set (columns frm)"
    and "distinct (map idx (rows frm))"
    and "break_rows frm \<noteq> []"
    and "length (predictions sk self frm) = length (break_rows frm)"
  shows "detect_anomalies sk self frm
         = Inr (self\<lparr>scaler := Some (fitted_scaler sk frm),
                      model := Some (fitted_forest sk self frm)\<rparr>,
                \<lparr>columns = columns frm @ [''Is Anomaly''],
                 rows = map (\<lambda>r. r\<lparr>Is_Anomaly := anomaly_flag sk self frm r\<rparr>) (rows frm)\<rparr>)"
proof -
  let ?right = "zip (map idx (break_rows frm)) (map to_binary (predictions sk self frm))"
  have "distinct (map fst ?right)"
    using assms(5,7) by (simp add: distinct_break_rows)
  then have "merge_left (rows frm) ?right
      = map (\<lambda>r. (r, case map_of ?right (idx r) of None \<Rightarrow> None | Some v \<Rightarrow> v)) (rows frm)"
    by (rule merge_left_distinct)
  with assms(1-4,6,7) show ?thesis
    unfolding detect_anomalies_def Let_def
    by (simp add: break_rows_def [symmetric] predictions_def [symmetric]
        fitted_forest_def [symmetric] scaled_breaks_def [symmetric]
        fitted_scaler_def [symmetric] anomaly_flag_def [abs_def] comp_def)
qed

lemma map2_score_fields:
  assumes "length ss = length rs"
  shows "map idx (map2 (\<lambda>r s. r\<lparr>Anomaly_Score := - s\<rparr>) rs ss) = map idx rs"
    and "map Match_Status (map2 (\<lambda>r s. r\<lparr>Anomaly_Score := - s\<rparr>) rs ss) = map Match_Status rs"
    and "map Is_Anomaly (map2 (\<lambda>r s. r\<lparr>Anomaly_Score := - s\<rparr>) rs ss) = map Is_Anomaly rs"
  using assms by (induction ss rs rule: list_induct2) simp_all

lemma calculate_anomaly_scores_rows:
  assumes "calculate_anomaly_scores sk self frm = Inr frm''"
  shows "\<exists>ss. length ss = length (rows frm)
            \<and> rows frm'' = map2 (\<lambda>r s. r\<lparr>Anomaly_Score := - s\<rparr>) (rows frm) ss"
proof (cases "rows frm = []")
  case True
  with assms have "rows frm'' = []"
    by (auto simp: calculate_anomaly_scores_def Let_def features_of_def split: if_splits)
  with True show ?thesis by simp
next
  case False
  with assms obtain ss where "length ss = length (rows frm)"
    "rows frm'' = map2 (\<lambda>r s. r\<lparr>Anomaly_Score := - s\<rparr>) (rows frm) ss"
    by (auto simp: calculate_anomaly_scores_def Let_def features_of_def
        split: if_splits option.splits)
  then show ?thesis by (intro exI [of _ ss] conjI)
qed

lemma calculate_anomaly_scores_fields:
  assumes "calculate_anomaly_scores sk self frm = Inr frm''"
  shows "map idx (rows frm'') = map idx (rows frm)"
    and "map Match_Status (rows frm'') = map Match_Status (rows frm)"
    and "map Is_Anomaly (rows frm'') = map Is_Anomaly (rows frm)"
proof -
  from calculate_anomaly_scores_rows [OF assms] obtain ss where
    ss: "length ss = length (rows frm)"
      "rows frm'' = map2 (\<lambda>r s. r\<lparr>Anomaly_Score := - s\<rparr>) (rows frm) ss"
    by (elim exE conjE) (rule that)
  show "map idx (rows frm'') = map idx (rows frm)"
    and "map Match_Status (rows frm'') = map Match_Status (rows frm)"
    and "map Is_Anomaly (rows frm'') = map Is_Anomaly (rows frm)"
    unfolding ss(2) by (rule map2_score_fields [OF ss(1)])+
qed

lemma calculate_anomaly_scores_unfitted:
  assumes "''Balance Difference'' \<in> set (columns frm)"
    and "''Previous Balance Difference'' \<in> set (columns frm)"
    and "rows frm \<noteq> []" and "scaler self = None"
  shows "calculate_anomaly_scores sk self frm = Inl (NotFittedError ''StandardScaler'')"
  using assms by (simp add: calculate_anomaly_scores_def features_of_def)

lemma detect_anomalies_properties:
  assumes cols: "''Match Status'' \<in> set (columns frm)"
      "''Balance Difference'' \<in> set (columns frm)"
      "''Previous Balance Difference'' \<in> set (columns frm)"
      "''Is Anomaly'' \<notin> set (columns frm)"
    and dist: "distinct (map idx (rows frm))"
    and len: "length (predictions sk self frm) = length (break_rows frm)"
  shows "\<exists>self' frm'. detect_anomalies sk self frm = Inr (self', frm')
           \<and> map idx (rows frm') = map idx (rows frm)
           \<and> map Match_Status (rows frm') = map Match_Status (rows frm)
           \<and> (\<forall>r \<in> set (rows frm').
                  (Is_Anomaly r = 0 \<or> Is_Anomaly r = 1)
                \<and> (Match_Status r = ''Match'' \<longrightarrow> Is_Anomaly r = 0))"
proof (cases "break_rows frm = []")
  case True
  let ?frm' = "\<lparr>columns = add_column ''Is Anomaly'' (columns frm),
                rows = map (\<lambda>r. r\<lparr>Is_Anomaly := 0\<rparr>) (rows frm)\<rparr>"
  have 1: "detect_anomalies sk self frm = Inr (self, ?frm')"
    using cols(1) True by (rule detect_anomalies_no_breaks)
  have 2: "map idx (rows ?frm') = map idx (rows frm)"
    and 3: "map Match_Status (rows ?frm') = map Match_Status (rows frm)"
    by (simp_all add: comp_def)
  have 4: "\<forall>r \<in> set (rows ?frm').
             (Is_Anomaly r = 0 \<or> Is_Anomaly r = 1)
           \<and> (Match_Status r = ''Match'' \<longrightarrow> Is_Anomaly r = 0)"
    by auto
  from 1 2 3 4 show ?thesis
    by (intro exI [of _ self] exI [of _ ?frm'] conjI)
next
  case False
  let ?self' = "self\<lparr>scaler := Some (fitted_scaler sk frm),
                      model := Some (fitted_forest sk self frm)\<rparr>"
  let ?frm' = "\<lparr>columns = columns frm @ [''Is Anomaly''],
                rows = map (\<lambda>r. r\<lparr>Is_Anomaly := anomaly_flag sk self frm r\<rparr>) (rows frm)\<rparr>"
  have 1: "detect_anomalies sk self frm = Inr (?self', ?frm')"
    using cols dist False len by (rule detect_anomalies_breaks)
  have 2: "map idx (rows ?frm') = map idx (rows frm)"
    and 3: "map Match_Status (rows ?frm') = map Match_Status (rows frm)"
    by (simp_all add: comp_def)
  have 4: "\<forall>r' \<in> set (rows ?frm').
             (Is_Anomaly r' = 0 \<or> Is_Anomaly r' = 1)
           \<and> (Match_Status r' = ''Match'' \<longrightarrow> Is_Anomaly r' = 0)"
  proof
    fix r'
    assume "r' \<in> set (rows ?frm')"
    then obtain r where r: "r \<in> set (rows frm)"
      "r' = r\<lparr>Is_Anomaly := anomaly_flag sk self frm r\<rparr>"
      by auto
    have "anomaly_flag sk self frm r = 0" if "Match_Status r = ''Match''"
      using dist r(1) by (rule anomaly_flag_not_break) (simp add: that)
    with anomaly_flag_binary [of sk self frm r]
    show "(Is_Anomaly r' = 0 \<or> Is_Anomaly r' = 1)
        \<and> (Match_Status r' = ''Match'' \<longrightarrow> Is_Anomaly r' = 0)"
      by (simp add: r(2))
  qed
  from 1 2 3 4 show ?thesis
    by (intro exI [of _ ?self'] exI [of _ ?frm'] conjI)
qed

lemma predictions_length:
  assumes "\<forall>sc X. length (scaler_transform sk sc X) = length X"
    and "\<forall>fo X. length (forest_predict sk fo X) = length X"
  shows "length (predictions sk self frm) = length (break_rows frm)"
  using assms by (simp add: predictions_def scaled_breaks_def features_of_def)

lemma matches_only_processed_eq:
  "columns matches_only_processed = column_order"
  "rows matches_only_processed = engine_rows (rows matches_only_frame)"
proof -
  let ?start = "\<lparr>file_path = ''SAMPLE_DATA2.xlsx'', df = None\<rparr>"
  let ?ld = "\<lambda>self. Inr (self\<lparr>df := Some matches_only_frame\<rparr>)"
  have "difference_engine \<lparr>file_path = ''SAMPLE_DATA2.xlsx'', df = Some matches_only_frame\<rparr> = Inr s
    \<Longrightarrow> full_pipeline ?ld sample_clean ?start = get_processed_data s" for s
    by (simp add: full_pipeline_def difference_engine_def sample_clean_def and_then_def)
  note run = this [OF difference_engine_Some]
  have "full_pipeline ?ld sample_clean ?start
      = Inr \<lparr>columns = column_order, rows = engine_rows (rows matches_only_frame)\<rparr>"
    by (subst run, simp, subst get_processed_data_Some, simp)
       (simp add: engine_columns_def two_step_columns_def set_add_column add_column_def
         column_order_def required_columns_def matches_only_frame_def)
  then show "columns matches_only_processed = column_order"
    "rows matches_only_processed = engine_rows (rows matches_only_frame)"
    by (simp_all add: matches_only_processed_def)
qed

lemma matches_only_processed_columns:
  "''Match Status'' \<in> set (columns matches_only_processed)"
  "''Balance Difference'' \<in> set (columns matches_only_processed)"
  "''Previous Balance Difference'' \<in> set (columns matches_only_processed)"
  by (simp_all add: matches_only_processed_eq column_order_def required_columns_def)

lemma matches_only_processed_fields:
  "map idx (rows matches_only_processed) = [0]"
  "map Match_Status (rows matches_only_processed) = [''Match'']"
  "map Balance_Difference (rows matches_only_processed) = [0]"
  by (simp_all add: matches_only_processed_eq engine_rows_def matches_only_frame_def sample_defs)

lemma matches_only_processed_no_breaks:
  "rows matches_only_processed \<noteq> []"
  "filter (\<lambda>r. Match_Status r = ''Break'') (rows matches_only_processed) = []"
proof -
  from matches_only_processed_fields(2) obtain r where
    r: "rows matches_only_processed = [r]" "Match_Status r = ''Match''"
    by auto
  then show "rows matches_only_processed \<noteq> []"
    and "filter (\<lambda>r. Match_Status r = ''Break'') (rows matches_only_processed) = []"
    by simp_all
qed

lemma toy_sklearn_lengths:
  "\<forall>sc X. length (scaler_transform toy_sklearn sc X) = length X"
  "\<forall>fo X. length (forest_predict toy_sklearn fo X) = length X"
  by (simp_all add: toy_sklearn_def)

lemma processed_sample_distinct: "distinct (map idx (rows processed_sample))"
  by (simp only: processed_sample_fields(1)) simp

lemma processed_sample_merge:
  "zip (map idx (break_rows processed_sample))
       (map to_binary (predictions toy_sklearn AnomalyDetector_init processed_sample))
   = [(0, Some 0), (3, Some 1)]"
  by (simp add: break_rows_def predictions_def fitted_forest_def scaled_breaks_def
      fitted_scaler_def features_of_def toy_sklearn_def to_binary_def fillna0_def
      processed_sample_eq engine_rows_def sample_defs)

lemma processed_sample_flags:
  "map (anomaly_flag toy_sklearn AnomalyDetector_init processed_sample) (rows processed_sample)
   = [0, 0, 0, 1]"
proof -
  have "map (anomaly_flag toy_sklearn AnomalyDetector_init processed_sample)
          (rows processed_sample)
        = map (\<lambda>i. fillna0_int (case map_of [(0, Some 0), (3, Some 1)] i of
                                    None \<Rightarrow> None | Some v \<Rightarrow> v))
            (map idx (rows processed_sample))"
    by (simp add: anomaly_flag_def [abs_def] processed_sample_merge comp_def)
  also have "\<dots> = [0, 0, 0, 1]"
    by (simp only: processed_sample_fields(1)) (simp add: fillna0_int_def)
  finally show ?thesis .
qed

text \<open>
  C7. Take a frame as \<open>full_pipeline\<close> returns it (the three columns of the Difference
  Engine, no Is Anomaly column yet, distinct index labels) and estimators that return one
  value per sample. Then \<open>detect_anomalies\<close> returns, keeps the records and their
  status, gives every record a flag that is 0 or 1, and gives every Match record the flag 0;
  and when \<open>calculate_anomaly_scores\<close> then returns, it has left the flags as they were.
\<close>

theorem is_anomaly_is_binary:
  assumes "''Match Status'' \<in> set (columns frm)"
    and "''Balance Difference'' \<in> set (columns frm)"
    and "''Previous Balance Difference'' \<in> set (columns frm)"
    and "''Is Anomaly'' \<notin> set (columns frm)"
    and "distinct (map idx (rows frm))"
    and "\<forall>sc X. length (scaler_transform sk sc X) = length X"
    and "\<forall>fo X. length (forest_predict sk fo X) = length X"
  shows "\<exists>self' frm'. detect_anomalies sk self frm = Inr (self', frm')
           \<and> map idx (rows frm') = map idx (rows frm)
           \<and> map Match_Status (rows frm') = map Match_Status (rows frm)
           \<and> (\<forall>r \<in> set (rows frm').
                  (Is_Anomaly r = 0 \<or> Is_Anomaly r = 1)
                \<and> (Match_Status r = ''Match'' \<longrightarrow> Is_Anomaly r = 0))
           \<and> (\<forall>frm''. calculate_anomaly_scores sk self' frm' = Inr frm'' \<longrightarrow>
                  map Match_Status (rows frm'') = map Match_Status (rows frm')
                \<and> map Is_Anomaly (rows frm'') = map Is_Anomaly (rows frm'))"
proof -
  have "length (predictions sk self frm) = length (break_rows frm)"
    using assms(6,7) by (rule predictions_length)
  from detect_anomalies_properties [OF assms(1-5) this]
  obtain self' frm' where
    1: "detect_anomalies sk self frm = Inr (self', frm')"
      "map idx (rows frm') = map idx (rows frm)"
      "map Match_Status (rows frm') = map Match_Status (rows frm)"
      "\<forall>r \<in> set (rows frm').
          (Is_Anomaly r = 0 \<or> Is_Anomaly r = 1)
        \<and> (Match_Status r = ''Match'' \<longrightarrow> Is_Anomaly r = 0)"
    by (elim exE conjE) (rule that)
  have 2: "\<forall>frm''. calculate_anomaly_scores sk self' frm' = Inr frm'' \<longrightarrow>
                  map Match_Status (rows frm'') = map Match_Status (rows frm')
                \<and> map Is_Anomaly (rows frm'') = map Is_Anomaly (rows frm')"
    by (intro allI impI conjI)
       (erule calculate_anomaly_scores_fields(2), erule calculate_anomaly_scores_fields(3))
  from 1 2 show ?thesis
    by (intro exI [of _ self'] exI [of _ frm'] conjI)
qed

theorem is_anomaly_is_binary_witness:
  "''Match Status'' \<in> set (columns processed_sample)
   \<and> ''Balance Difference'' \<in> set (columns processed_sample)
   \<and> ''Previous Balance Difference'' \<in> set (columns processed_sample)
   \<and> ''Is Anomaly'' \<notin> set (columns processed_sample)
   \<and> distinct (map idx (rows processed_sample))
   \<and> (\<forall>sc X. length (scaler_transform toy_sklearn sc X) = length X)
   \<and> (\<forall>fo X. length (forest_predict toy_sklearn fo X) = length X)
   \<and> map Match_Status (rows processed_sample) = [''Match'', ''Break'', ''Match'', ''Break'']
   \<and> (\<exists>self' frm'. detect_anomalies toy_sklearn AnomalyDetector_init processed_sample
                       = Inr (self', frm')
         \<and> map Match_Status (rows frm') = map Match_Status (rows processed_sample)
         \<and> map Is_Anomaly (rows frm') = [0, 0, 0, 1])"
proof -
  from is_anomaly_is_binary
         [OF processed_sample_columns processed_sample_distinct toy_sklearn_lengths,
          of AnomalyDetector_init]
  obtain self' frm' where
    run: "detect_anomalies toy_sklearn AnomalyDetector_init processed_sample = Inr (self', frm')"
    and status: "map Match_Status (rows frm') = map Match_Status (rows processed_sample)"
    by (elim exE conjE) (rule that)
  have breaks: "break_rows processed_sample \<noteq> []"
    using arg_cong [OF processed_sample_merge, of length] by auto
  have len: "length (predictions toy_sklearn AnomalyDetector_init processed_sample)
             = length (break_rows processed_sample)"
    using toy_sklearn_lengths by (rule predictions_length)
  from run have "rows frm'
      = map (\<lambda>r. r\<lparr>Is_Anomaly :=
                      anomaly_flag toy_sklearn AnomalyDetector_init processed_sample r\<rparr>)
          (rows processed_sample)"
    unfolding detect_anomalies_breaks
                [OF processed_sample_columns processed_sample_distinct breaks len]
    by auto
  then have "map Is_Anomaly (rows frm')
      = map (anomaly_flag toy_sklearn AnomalyDetector_init processed_sample)
          (rows processed_sample)"
    by (simp add: comp_def)
  then have flags: "map Is_Anomaly (rows frm') = [0, 0, 0, 1]"
    by (simp only: processed_sample_flags)
  have "\<exists>self' frm'. detect_anomalies toy_sklearn AnomalyDetector_init processed_sample
                       = Inr (self', frm')
         \<and> map Match_Status (rows frm') = map Match_Status (rows processed_sample)
         \<and> map Is_Anomaly (rows frm') = [0, 0, 0, 1]"
    using run status flags by (intro exI [of _ self'] exI [of _ frm'] conjI)
  with processed_sample_columns processed_sample_distinct toy_sklearn_lengths
    processed_sample_fields(2)
  show ?thesis by (intro conjI)
qed

text \<open>
  C1, on the code. Take a frame with the columns of the Difference Engine, at least one
  record and no Break record, and a fresh detector. \<open>detect_anomalies\<close> returns with the
  flag 0 on every record and leaves the scaler unfitted; \<open>calculate_anomaly_scores\<close> then
  finds a non-empty feature table, calls \<open>transform\<close> on the unfitted scaler and raises
  \<open>NotFittedError\<close>: no record gets an anomaly score.
\<close>

theorem zero_breaks_scoring_raises:
  assumes "''Match Status'' \<in> set (columns frm)"
    and "''Balance Difference'' \<in> set (columns frm)"
    and "''Previous Balance Difference'' \<in> set (columns frm)"
    and "rows frm \<noteq> []"
    and "filter (\<lambda>r. Match_Status r = ''Break'') (rows frm) = []"
  shows "\<exists>frm'. detect_anomalies sk AnomalyDetector_init frm = Inr (AnomalyDetector_init, frm')
           \<and> map idx (rows frm') = map idx (rows frm)
           \<and> map Is_Anomaly (rows frm') = map (\<lambda>r. 0) (rows frm)
           \<and> calculate_anomaly_scores sk AnomalyDetector_init frm'
               = Inl (NotFittedError ''StandardScaler'')"
proof -
  let ?frm' = "\<lparr>columns = add_column ''Is Anomaly'' (columns frm),
                rows = map (\<lambda>r. r\<lparr>Is_Anomaly := 0\<rparr>) (rows frm)\<rparr>"
  have 1: "detect_anomalies sk AnomalyDetector_init frm = Inr (AnomalyDetector_init, ?frm')"
    using assms(1,5) by (intro detect_anomalies_no_breaks) (simp_all add: break_rows_def)
  have 2: "map idx (rows ?frm') = map idx (rows frm)"
    and 3: "map Is_Anomaly (rows ?frm') = map (\<lambda>r. 0) (rows frm)"
    by (simp_all add: comp_def)
  have 4: "calculate_anomaly_scores sk AnomalyDetector_init ?frm'
           = Inl (NotFittedError ''StandardScaler'')"
    using assms(2-4)
    by (intro calculate_anomaly_scores_unfitted)
       (simp_all add: set_add_column AnomalyDetector_init_def)
  from 1 2 3 4 show ?thesis
    by (intro exI [of _ ?frm'] conjI)
qed

theorem zero_breaks_scoring_raises_witness:
  "''Match Status'' \<in> set (columns matches_only_processed)
   \<and> ''Balance Difference'' \<in> set (columns matches_only_processed)
   \<and> ''Previous Balance Difference'' \<in> set (columns matches_only_processed)
   \<and> rows matches_only_processed \<noteq> []
   \<and> map Match_Status (rows matches_only_processed) = [''Match'']
   \<and> (\<exists>frm'. detect_anomalies toy_sklearn AnomalyDetector_init matches_only_processed
                = Inr (AnomalyDetector_init, frm')
         \<and> map Is_Anomaly (rows frm') = [0]
         \<and> calculate_anomaly_scores toy_sklearn AnomalyDetector_init frm'
             = Inl (NotFittedError ''StandardScaler''))"
proof -
  from zero_breaks_scoring_raises
         [OF matches_only_processed_columns matches_only_processed_no_breaks, of toy_sklearn]
  obtain frm' where
    run: "detect_anomalies toy_sklearn AnomalyDetector_init matches_only_processed
          = Inr (AnomalyDetector_init, frm')"
    and flags: "map Is_Anomaly (rows frm') = map (\<lambda>r. 0) (rows matches_only_processed)"
    and raised: "calculate_anomaly_scores toy_sklearn AnomalyDetector_init frm'
                 = Inl (NotFittedError ''StandardScaler'')"
    by (elim exE conjE) (rule that)
  have "map (\<lambda>r::row. 0::int) (rows matches_only_processed) = [0]"
    using arg_cong [OF matches_only_processed_fields(1), of length]
    by (simp add: length_Suc_conv) auto
  with flags have "map Is_Anomaly (rows frm') = [0]" by simp
  with run raised
  have "\<exists>frm'. detect_anomalies toy_sklearn AnomalyDetector_init matches_only_processed
                = Inr (AnomalyDetector_init, frm')
         \<and> map Is_Anomaly (rows frm') = [0]
         \<and> calculate_anomaly_scores toy_sklearn AnomalyDetector_init frm'
             = Inl (NotFittedError ''StandardScaler'')"
    by (intro exI [of _ frm'] conjI)
  with matches_only_processed_columns matches_only_processed_no_breaks(1)
    matches_only_processed_fields(2)
  show ?thesis by (intro conjI)
qed

section \<open>The workflow without a token\<close>

lemma and_then_fails:
  assumes "\<And>x. \<exists>e. f x = Inl e"
  shows "\<exists>e. and_then m f = Inl e"
proof (cases m)
  case (Inl e)
  then show ?thesis by (simp add: and_then_def)
next
  case (Inr x)
  with assms [of x] show ?thesis by (simp add: and_then_def)
qed

lemma global_name_np: "global_name ''np'' = Inl (NameError ''np'')"
  by (simp add: global_name_def ai_insights_globals_def)

lemma generate_break_comments_no_chain:
  assumes "llm_chain ai = None"
  shows "generate_break_comments c bp ai frm = Inl (NameError ''np'')"
  using assms by (simp add: generate_break_comments_def global_name_np and_then_def)

lemma AIIInsightsGenerator_init_no_token:
  "AIIInsightsGenerator_init hb None
   = Inr \<lparr>ai_hf_token = None, model_name = ''google/flan-t5-large'', llm_chain = None\<rparr>"
  by (simp add: AIIInsightsGenerator_init_def initialize_llm_chain_def and_then_def)

lemma execute_steps_no_token:
  assumes "hf_token self = None"
  shows "\<exists>e. execute_steps ext self = Inl e"
proof -
  have insights: "\<exists>e. and_then (AIIInsightsGenerator_init (hub ext) (hf_token self))
            (\<lambda>ai. and_then (generate_break_comments (call ext) (break_prompt ext) ai d4)
               (g ai)) = Inl e" for d4 :: frame and g
    by (simp add: assms AIIInsightsGenerator_init_no_token and_then_def
        generate_break_comments_no_chain)
  show ?thesis
    unfolding execute_steps_def
    by (intro and_then_fails insights) (simp add: split_beta, intro and_then_fails insights)
qed

lemma calculate_anomaly_scores_fitted:
  assumes "''Balance Difference'' \<in> set (columns frm)"
    and "''Previous Balance Difference'' \<in> set (columns frm)"
    and "scaler self = Some sc" and "model self = Some fo"
    and "\<forall>fo X. length (forest_score_samples sk fo X) = length X"
    and "\<forall>sc X. length (scaler_transform sk sc X) = length X"
  shows "\<exists>frm''. calculate_anomaly_scores sk self frm = Inr frm''
           \<and> columns frm'' = add_column ''Anomaly Score'' (columns frm)"
  using assms by (simp add: calculate_anomaly_scores_def Let_def features_of_def)

lemma toy_sklearn_score_length:
  "\<forall>fo X. length (forest_score_samples toy_sklearn fo X) = length X"
  by (simp add: toy_sklearn_def)

lemma sample_run_stops_at_comments:
  "execute_steps toy_collaborators sample_workflow = Inl (NameError ''np'')"
proof -
  have breaks: "break_rows processed_sample \<noteq> []"
    using arg_cong [OF processed_sample_merge, of length] by auto
  have len: "length (predictions toy_sklearn AnomalyDetector_init processed_sample)
             = length (break_rows processed_sample)"
    using toy_sklearn_lengths by (rule predictions_length)
  let ?det = "AnomalyDetector_init\<lparr>scaler := Some (fitted_scaler toy_sklearn processed_sample),
                 model := Some (fitted_forest toy_sklearn AnomalyDetector_init processed_sample)\<rparr>"
  let ?d2 = "\<lparr>columns = columns processed_sample @ [''Is Anomaly''],
              rows = map (\<lambda>r. r\<lparr>Is_Anomaly :=
                        anomaly_flag toy_sklearn AnomalyDetector_init processed_sample r\<rparr>)
                       (rows processed_sample)\<rparr>"
  have 1: "full_pipeline (load_data toy_collaborators) (clean_data toy_collaborators)
             \<lparr>file_path = input_path sample_workflow, df = None\<rparr> = Inr processed_sample"
    by (simp add: toy_collaborators_def sample_workflow_def processed_sample_eq(1))
  have 2: "detect_anomalies (sklearn_lib toy_collaborators) AnomalyDetector_init processed_sample
           = Inr (?det, ?d2)"
    using detect_anomalies_breaks
            [OF processed_sample_columns processed_sample_distinct breaks len]
    by (simp add: toy_collaborators_def)
  have cols2: "''Balance Difference'' \<in> set (columns ?d2)"
    "''Previous Balance Difference'' \<in> set (columns ?d2)"
    "''Match Status'' \<in> set (columns ?d2)"
    using processed_sample_columns by simp_all
  from calculate_anomaly_scores_fitted
         [OF cols2(1,2) _ _ toy_sklearn_score_length toy_sklearn_lengths(1), of ?det]
  obtain d3 where 3: "calculate_anomaly_scores (sklearn_lib toy_collaborators) ?det ?d2 = Inr d3"
    and cols3: "columns d3 = add_column ''Anomaly Score'' (columns ?d2)"
    by (auto simp: toy_collaborators_def)
  have "''Match Status'' \<in> set (columns d3)" "''Balance Difference'' \<in> set (columns d3)"
    using cols2 by (simp_all only: cols3 set_add_column) simp_all
  from classify_all_Inr [OF this]
  obtain d4 where 4: "classify_all HybridAnomalyClassifier_init d3 = Inr d4"
    by simp
  have 5: "AIIInsightsGenerator_init (hub toy_collaborators) (hf_token sample_workflow)
           = Inr \<lparr>ai_hf_token = None, model_name = ''google/flan-t5-large'', llm_chain = None\<rparr>"
    by (simp add: sample_workflow_def AIIInsightsGenerator_init_no_token)
  have 6: "generate_break_comments (call toy_collaborators) (break_prompt toy_collaborators)
             \<lparr>ai_hf_token = None, model_name = ''google/flan-t5-large'', llm_chain = None\<rparr> d4
           = Inl (NameError ''np'')"
    by (rule generate_break_comments_no_chain) simp
  show ?thesis
    unfolding execute_steps_def
    by (simp only: and_then_Inr_eq [OF 1] and_then_Inr_eq [OF 2] prod.case
        and_then_Inr_eq [OF 3] and_then_Inr_eq [OF 4] and_then_Inr_eq [OF 5]
        and_then_Inl [OF 6])
qed

text \<open>
  C2, on the code. Without a token the generator has no chain, and
  \<open>generate_break_comments\<close> then evaluates \<open>np.where\<close> in a module that never
  imports numpy: it raises \<open>NameError\<close> for every frame, before any comment is written.
  \<open>execute\<close> catches the exception and returns \<open>False\<close> with no results saved,
  whatever the batch and the collaborators are.
\<close>

theorem no_token_run_fails:
  "AIIInsightsGenerator_init hb None
     = Inr \<lparr>ai_hf_token = None, model_name = ''google/flan-t5-large'', llm_chain = None\<rparr>
   \<and> generate_break_comments c bp
        \<lparr>ai_hf_token = None, model_name = ''google/flan-t5-large'', llm_chain = None\<rparr> frm
     = Inl (NameError ''np'')
   \<and> execute ext (self\<lparr>hf_token := None\<rparr>) = (False, self\<lparr>hf_token := None\<rparr>)"
proof -
  have "\<exists>e. execute_steps ext (self\<lparr>hf_token := None\<rparr>) = Inl e"
    by (rule execute_steps_no_token) simp
  then have "execute ext (self\<lparr>hf_token := None\<rparr>) = (False, self\<lparr>hf_token := None\<rparr>)"
    by (auto simp: execute_def)
  then show ?thesis
    by (simp add: AIIInsightsGenerator_init_no_token generate_break_comments_no_chain)
qed

theorem no_token_run_fails_witness:
  "execute_steps toy_collaborators sample_workflow = Inl (NameError ''np'')
   \<and> generate_break_comments (call toy_collaborators) (break_prompt toy_collaborators)
        \<lparr>ai_hf_token = None, model_name = ''google/flan-t5-large'', llm_chain = None\<rparr>
        processed_sample
     = Inl (NameError ''np'')
   \<and> execute toy_collaborators sample_workflow = (False, sample_workflow)"
proof -
  note t = no_token_run_fails
             [where ext = toy_collaborators and self = sample_workflow
                and hb = "hub toy_collaborators" and c = "call toy_collaborators"
                and bp = "break_prompt toy_collaborators" and frm = processed_sample]
  have w: "sample_workflow\<lparr>hf_token := None\<rparr> = sample_workflow"
    by (simp add: sample_workflow_def)
  from t have a: "generate_break_comments (call toy_collaborators) (break_prompt toy_collaborators)
        \<lparr>ai_hf_token = None, model_name = ''google/flan-t5-large'', llm_chain = None\<rparr>
        processed_sample
     = Inl (NameError ''np'')"
    by (elim conjE)
  from t have "execute toy_collaborators (sample_workflow\<lparr>hf_token := None\<rparr>)
               = (False, sample_workflow\<lparr>hf_token := None\<rparr>)"
    by (elim conjE)
  then have b: "execute toy_collaborators sample_workflow = (False, sample_workflow)"
    by (simp only: w)
  from sample_run_stops_at_comments a b show ?thesis
    by (intro conjI)
qed

end
